theory Spec2Isabelle
  imports Main "HOL-Library.Word"
begin

section \<open>The escrow ledger: contracts/contract1/contract1.sol\<close>

text \<open>
  The contract is embedded as pure functions over a record of its storage.  A call
  either reverts (\<open>Inl\<close> with the reason; the EVM then discards every change of the
  call) or returns the new storage together with what the call did to the outside:
  the value transfers it made and the events it emitted, in program order.

  Solidity 0.8 checks arithmetic: a product or increment that leaves \<open>uint256\<close>
  reverts with a panic.  Gas and the ether balance of the contract are not modelled; a
  value transfer that fails for lack of funds is one the environment rejects.
\<close>

type_synonym uint256 = "256 word"
type_synonym address = "160 word"
type_synonym bytes32 = "256 word"

datatype Status = Created | Confirmed | Cancelled

record Request =
  req_id :: uint256   \<comment> \<open>the field \<open>id\<close>\<close>
  buyerOperator :: address
  numUsers :: uint256
  durationMins :: uint256
  orderDetails :: bytes32
  status :: Status
  createdAt :: uint256
  amountPaid :: uint256

record ledger =
  deployerOperator :: address
  nextRequestId :: uint256
  requests :: "uint256 \<Rightarrow> Request"

datatype error =
    Unauthorized          \<comment> \<open>"Not the deployer Operator"\<close>
  | InvalidRequester      \<comment> \<open>"Invalid buyerOperator"\<close>
  | InsufficientPayment   \<comment> \<open>"Insufficient amount on buyer's account"\<close>
  | InvalidState          \<comment> \<open>"The request is not in 'Created' status"\<close>
  | PaymentFailed         \<comment> \<open>"Payment failed"\<close>
  | RefundFailed          \<comment> \<open>"Refund failed"\<close>
  | Panic                 \<comment> \<open>checked arithmetic or array index out of range\<close>

datatype event =
    RequestCreated uint256 address uint256 uint256 bytes32 uint256
  | RequestConfirmed uint256
  | RequestCancelled uint256 string

datatype effect = Transfer address uint256 | Emit event

text \<open>A mapping slot that was never written reads as the all-zero value; the first
  member of an enum is its zero.\<close>

definition zero_request :: Request where
  "zero_request = \<lparr> req_id = 0, buyerOperator = 0, numUsers = 0, durationMins = 0,
     orderDetails = 0, status = Created, createdAt = 0, amountPaid = 0 \<rparr>"

text \<open>\<open>constructor(address _deployer)\<close>\<close>

definition constructor :: "address \<Rightarrow> ledger" where
  "constructor deployer =
     \<lparr> deployerOperator = deployer, nextRequestId = 0, requests = (\<lambda>_. zero_request) \<rparr>"

text \<open>Checked \<open>uint256\<close> multiplication and increment.\<close>

definition checked_mul :: "uint256 \<Rightarrow> uint256 \<Rightarrow> error + uint256" where
  "checked_mul a b = (if unat a * unat b < 2 ^ 256 then Inr (a * b) else Inl Panic)"

definition checked_inc :: "uint256 \<Rightarrow> error + uint256" where
  "checked_inc a = (if unat a + 1 < 2 ^ 256 then Inr (a + 1) else Inl Panic)"

text \<open>\<open>0.00012 ether\<close> in wei.\<close>

definition rate_wei :: uint256 where
  "rate_wei = 120000000000000"

text \<open>\<open>durationMins * numUsers * 0.00012 ether\<close>, evaluated left to right.\<close>

definition requiredPayment :: "uint256 \<Rightarrow> uint256 \<Rightarrow> error + uint256" where
  "requiredPayment dMins nUsers =
     (case checked_mul dMins nUsers of
        Inl e \<Rightarrow> Inl e
      | Inr p \<Rightarrow> checked_mul p rate_wei)"

text \<open>\<open>createRequest\<close>; \<open>msg_value\<close> is the payment sent with the call and
  \<open>block_timestamp\<close> the time of the block.  It returns the new id.\<close>

definition createRequest ::
  "ledger \<Rightarrow> uint256 \<Rightarrow> uint256 \<Rightarrow> address \<Rightarrow> uint256 \<Rightarrow> uint256 \<Rightarrow> bytes32
     \<Rightarrow> error + (ledger \<times> uint256 \<times> effect list)" where
  "createRequest st msg_value block_timestamp buyer nUsers dMins details =
     (if buyer = 0 then Inl InvalidRequester
      else case requiredPayment dMins nUsers of
        Inl e \<Rightarrow> Inl e
      | Inr required \<Rightarrow>
          if \<not> (msg_value \<ge> required) then Inl InsufficientPayment
          else case checked_inc (nextRequestId st) of
            Inl e \<Rightarrow> Inl e
          | Inr next \<Rightarrow>
              let i = nextRequestId st;
                  r = \<lparr> req_id = i, buyerOperator = buyer, numUsers = nUsers,
                        durationMins = dMins, orderDetails = details, status = Created,
                        createdAt = block_timestamp, amountPaid = msg_value \<rparr>
              in Inr (st\<lparr> nextRequestId := next, requests := (requests st)(i := r) \<rparr>,
                      i,
                      [Emit (RequestCreated i buyer nUsers dMins details msg_value)]))"

subsection \<open>Confirming and cancelling: the external call\<close>

text \<open>
  \<open>confirmRequest\<close> and \<open>cancelRequest\<close> pay with the low-level
  \<open>call{value: ...}("")\<close>, which runs the code of the recipient before it returns, and
  both write the new status only after the call has returned.  While the recipient
  runs, it (or a contract it calls) can call the ledger again.  What the environment
  does during one external call is a \<open>behaviour\<close>: the calls it makes back into the
  ledger, in order, each with the behaviour of the environment during the external call
  that this inner call makes in turn, and whether the external call succeeds in the end.
  An inner call that reverts is undone and the recipient goes on; an external call that
  does not succeed undoes everything that happened during it.  A \<open>call\<close> is one
  invocation of a state-changing function with its arguments, together with
  \<open>msg.sender\<close> (and \<open>msg.value\<close> and the block's time for \<open>createRequest\<close>).
\<close>

datatype call =
    CallCreate uint256 uint256 address uint256 uint256 bytes32
  | CallConfirm address uint256
  | CallCancel address uint256 string

datatype behaviour = Behaviour bool "(call \<times> behaviour) list"

text \<open>\<open>confirmRequest\<close>, with the \<open>onlyDeployer\<close> modifier first; \<open>req\<close> is a storage
  reference, so the status is written into the storage as the external call left it.
  \<open>cancelRequest\<close> makes the refund call only for a positive amount.  \<open>callbacks\<close> runs
  the calls the environment makes during an external call.\<close>

function confirmRequest ::
    "ledger \<Rightarrow> address \<Rightarrow> behaviour \<Rightarrow> uint256 \<Rightarrow> error + (ledger \<times> effect list)"
  and cancelRequest ::
    "ledger \<Rightarrow> address \<Rightarrow> behaviour \<Rightarrow> uint256 \<Rightarrow> string \<Rightarrow> error + (ledger \<times> effect list)"
  and callbacks ::
    "ledger \<Rightarrow> (call \<times> behaviour) list \<Rightarrow> ledger \<times> effect list"
where
  "confirmRequest st msg_sender (Behaviour sent inner) i =
     (if msg_sender \<noteq> deployerOperator st then Inl Unauthorized
      else if status (requests st i) \<noteq> Created then Inl InvalidState
      else if \<not> sent then Inl PaymentFailed
      else case callbacks st inner of
        (st1, effs1) \<Rightarrow>
          Inr (st1\<lparr> requests :=
                     (requests st1)(i := (requests st1 i)\<lparr> status := Confirmed \<rparr>) \<rparr>,
               [Transfer (deployerOperator st) (amountPaid (requests st i))] @ effs1
               @ [Emit (RequestConfirmed i)]))"
| "cancelRequest st msg_sender (Behaviour refunded inner) i reason =
     (if msg_sender \<noteq> deployerOperator st then Inl Unauthorized
      else if status (requests st i) \<noteq> Created then Inl InvalidState
      else if amountPaid (requests st i) > 0
      then (if \<not> refunded then Inl RefundFailed
            else case callbacks st inner of
              (st1, effs1) \<Rightarrow>
                Inr (st1\<lparr> requests :=
                           (requests st1)(i := (requests st1 i)\<lparr> status := Cancelled \<rparr>) \<rparr>,
                     [Transfer (buyerOperator (requests st i)) (amountPaid (requests st i))]
                     @ effs1 @ [Emit (RequestCancelled i reason)]))
      else Inr (st\<lparr> requests := (requests st)(i := (requests st i)\<lparr> status := Cancelled \<rparr>) \<rparr>,
                [Emit (RequestCancelled i reason)]))"
| "callbacks st [] = (st, [])"
| "callbacks st ((CallCreate msg_value block_timestamp buyer nUsers dMins details, b) # rest) =
     (case createRequest st msg_value block_timestamp buyer nUsers dMins details of
        Inl e \<Rightarrow> callbacks st rest
      | Inr (st', i, effs) \<Rightarrow>
          (case callbacks st' rest of (st'', effs') \<Rightarrow> (st'', effs @ effs')))"
| "callbacks st ((CallConfirm msg_sender i, b) # rest) =
     (case confirmRequest st msg_sender b i of
        Inl e \<Rightarrow> callbacks st rest
      | Inr (st', effs) \<Rightarrow>
          (case callbacks st' rest of (st'', effs') \<Rightarrow> (st'', effs @ effs')))"
| "callbacks st ((CallCancel msg_sender i reason, b) # rest) =
     (case cancelRequest st msg_sender b i reason of
        Inl e \<Rightarrow> callbacks st rest
      | Inr (st', effs) \<Rightarrow>
          (case callbacks st' rest of (st'', effs') \<Rightarrow> (st'', effs @ effs')))"
  by pat_completeness auto
termination
  by (relation "measure (\<lambda>x. case x of
        Inl (st, msg_sender, b, i) \<Rightarrow> size b
      | Inr (Inl (st, msg_sender, b, i, reason)) \<Rightarrow> size b
      | Inr (Inr (st, xs)) \<Rightarrow> size_list (size_prod (\<lambda>c. 0) size) xs)") auto

subsection \<open>The status queries\<close>

text \<open>Each query runs two loops over \<open>0 \<le> i < nextRequestId\<close>: the first counts the
  requests of the status, the second copies them into a fresh memory array of that
  length.  A write past the end of the array would revert.  The counters are bounded by
  \<open>nextRequestId\<close>, so their checked increments never trip; \<open>count\<close> and \<open>index\<close> are
  natural numbers here.\<close>

function count_loop :: "ledger \<Rightarrow> Status \<Rightarrow> uint256 \<Rightarrow> nat \<Rightarrow> nat" where
  "count_loop st s i count =
     (if i < nextRequestId st
      then count_loop st s (i + 1)
             (if status (requests st i) = s then count + 1 else count)
      else count)"
  by pat_completeness auto
termination
proof (relation "measure (\<lambda>(st, s, i, count). unat (nextRequestId st) - unat i)")
  show "wf (measure (\<lambda>(st, s, i, count). unat (nextRequestId st) - unat i))"
    by simp
next
  fix st :: ledger and s :: Status and i :: uint256 and count :: nat
  assume lt: "i < nextRequestId st"
  then have below: "unat i < unat (nextRequestId st)"
    by (simp add: word_less_nat_alt)
  moreover have "unat (nextRequestId st) < 2 ^ 256"
    using unsigned_less [of "nextRequestId st"] by simp
  ultimately have "unat i + 1 < 2 ^ 256"
    by linarith
  then have next_i: "unat (i + 1) = Suc (unat i)"
    by (simp add: unat_word_ariths)
  from below next_i show
    "((st, s, i + 1, if status (requests st i) = s then count + 1 else count),
      (st, s, i, count))
     \<in> measure (\<lambda>(st, s, i, count). unat (nextRequestId st) - unat i)"
    by simp
qed

function fill_loop ::
  "ledger \<Rightarrow> Status \<Rightarrow> uint256 \<Rightarrow> nat \<Rightarrow> Request list \<Rightarrow> error + Request list" where
  "fill_loop st s i index arr =
     (if i < nextRequestId st
      then (if status (requests st i) = s
            then (if index < length arr
                  then fill_loop st s (i + 1) (index + 1) (arr[index := requests st i])
                  else Inl Panic)
            else fill_loop st s (i + 1) index arr)
      else Inr arr)"
  by pat_completeness auto
termination
proof (relation "measure (\<lambda>(st, s, i, index, arr). unat (nextRequestId st) - unat i)")
  show "wf (measure (\<lambda>(st, s, i, index, arr). unat (nextRequestId st) - unat i))"
    by simp
next
  fix st :: ledger and s :: Status and i :: uint256 and index :: nat
    and arr :: "Request list"
  assume lt: "i < nextRequestId st"
  then have below: "unat i < unat (nextRequestId st)"
    by (simp add: word_less_nat_alt)
  moreover have "unat (nextRequestId st) < 2 ^ 256"
    using unsigned_less [of "nextRequestId st"] by simp
  ultimately have "unat i + 1 < 2 ^ 256"
    by linarith
  then have next_i: "unat (i + 1) = Suc (unat i)"
    by (simp add: unat_word_ariths)
  from below next_i show
    "((st, s, i + 1, index + 1, arr[index := requests st i]), (st, s, i, index, arr))
     \<in> measure (\<lambda>(st, s, i, index, arr). unat (nextRequestId st) - unat i)"
    by simp
  from below next_i show
    "((st, s, i + 1, index, arr), (st, s, i, index, arr))
     \<in> measure (\<lambda>(st, s, i, index, arr). unat (nextRequestId st) - unat i)"
    by simp
qed

declare count_loop.simps [simp del] fill_loop.simps [simp del]

definition list_by_status :: "ledger \<Rightarrow> address \<Rightarrow> Status \<Rightarrow> error + Request list" where
  "list_by_status st msg_sender s =
     (if msg_sender \<noteq> deployerOperator st then Inl Unauthorized
      else let count = count_loop st s 0 0;
               arr = replicate count zero_request
           in fill_loop st s 0 0 arr)"

definition getPendingRequests :: "ledger \<Rightarrow> address \<Rightarrow> error + Request list" where
  "getPendingRequests st msg_sender = list_by_status st msg_sender Created"

definition getConfirmedRequests :: "ledger \<Rightarrow> address \<Rightarrow> error + Request list" where
  "getConfirmedRequests st msg_sender = list_by_status st msg_sender Confirmed"

definition getCancelledRequests :: "ledger \<Rightarrow> address \<Rightarrow> error + Request list" where
  "getCancelledRequests st msg_sender = list_by_status st msg_sender Cancelled"

subsection \<open>Transactions and histories\<close>

text \<open>A transaction is a call from outside, together with the behaviour of the
  environment during the external call it makes.  A reverted transaction leaves the
  storage as it was and has no effect.  \<open>run\<close> executes a history from a given storage
  and returns the final storage with the effects of the whole history, each tagged with
  the request id the transaction acted on.\<close>

fun exec :: "behaviour \<Rightarrow> ledger \<Rightarrow> call \<Rightarrow> ledger \<times> effect list" where
  "exec ext_call st (CallCreate msg_value block_timestamp buyer nUsers dMins details) =
     (case createRequest st msg_value block_timestamp buyer nUsers dMins details of
        Inl e \<Rightarrow> (st, [])
      | Inr (st', i, effs) \<Rightarrow> (st', effs))"
| "exec ext_call st (CallConfirm msg_sender i) =
     (case confirmRequest st msg_sender ext_call i of
        Inl e \<Rightarrow> (st, [])
      | Inr (st', effs) \<Rightarrow> (st', effs))"
| "exec ext_call st (CallCancel msg_sender i reason) =
     (case cancelRequest st msg_sender ext_call i reason of
        Inl e \<Rightarrow> (st, [])
      | Inr (st', effs) \<Rightarrow> (st', effs))"

fun target :: "ledger \<Rightarrow> call \<Rightarrow> uint256" where
  "target st (CallCreate msg_value block_timestamp buyer nUsers dMins details) =
     nextRequestId st"
| "target st (CallConfirm msg_sender i) = i"
| "target st (CallCancel msg_sender i reason) = i"

fun run ::
  "ledger \<Rightarrow> (behaviour \<times> call) list \<Rightarrow> ledger \<times> (uint256 \<times> effect) list" where
  "run st [] = (st, [])"
| "run st ((ext_call, c) # txs) =
     (case exec ext_call st c of
        (st', effs) \<Rightarrow>
          (case run st' txs of
             (st'', log) \<Rightarrow> (st'', map (Pair (target st c)) effs @ log)))"

text \<open>The transfers of a positive amount made during the transactions on request
  \<open>i\<close>, in order: recipient and amount.\<close>

fun payouts :: "uint256 \<Rightarrow> (uint256 \<times> effect) list \<Rightarrow> (address \<times> uint256) list" where
  "payouts i [] = []"
| "payouts i ((j, Transfer recipient amount) # log) =
     (if j = i \<and> amount \<noteq> 0 then (recipient, amount) # payouts i log
      else payouts i log)"
| "payouts i ((j, Emit e) # log) = payouts i log"

text \<open>Two environments that never call back: one where the external call goes through
  and one where the recipient rejects it.\<close>

definition accepting :: behaviour where
  "accepting = Behaviour True []"

definition rejecting :: behaviour where
  "rejecting = Behaviour False []"

text \<open>How a stored request may differ after a call from what it was before: not at
  all, or, if it was \<open>Created\<close>, in its status alone, now \<open>Confirmed\<close> or
  \<open>Cancelled\<close>.\<close>

definition evolves :: "Request \<Rightarrow> Request \<Rightarrow> bool" where
  "evolves r r' \<longleftrightarrow>
     r' = r \<or>
     (status r = Created \<and>
      (r' = r\<lparr> status := Confirmed \<rparr> \<or> r' = r\<lparr> status := Cancelled \<rparr>))"

text \<open>The invariant of the storage that the proofs below carry through a history: a
  created request holds its own id, and a slot that is not yet created holds the zero
  record, but for its status.\<close>

definition ledger_inv :: "ledger \<Rightarrow> bool" where
  "ledger_inv st \<longleftrightarrow>
     (\<forall>j. (j < nextRequestId st \<longrightarrow> req_id (requests st j) = j) \<and>
          (nextRequestId st \<le> j \<longrightarrow>
             requests st j = zero_request\<lparr> status := status (requests st j) \<rparr>))"

text \<open>What a storage can become through calls: the deployer stays, the id counter
  does not go back, every created request evolves, and the invariant is kept.\<close>

definition follows :: "ledger \<Rightarrow> ledger \<Rightarrow> bool" where
  "follows st st' \<longleftrightarrow>
     deployerOperator st' = deployerOperator st \<and>
     nextRequestId st \<le> nextRequestId st' \<and>
     (\<forall>j. j < nextRequestId st \<longrightarrow> evolves (requests st j) (requests st' j)) \<and>
     (ledger_inv st \<longrightarrow> ledger_inv st')"

text \<open>The ids a loop over \<open>0 \<le> i < nextRequestId\<close> visits, ascending.\<close>

definition ids_upto :: "uint256 \<Rightarrow> uint256 list" where
  "ids_upto n = map of_nat [0 ..< unat n]"

definition with_status :: "ledger \<Rightarrow> Status \<Rightarrow> Request list" where
  "with_status st s =
     filter (\<lambda>r. status r = s) (map (requests st) (ids_upto (nextRequestId st)))"

section \<open>The sync bridge: the admin panel's server\<close>

text \<open>
  \<open>fetchWithRetry\<close> and the handlers of \<open>POST /api/confirm\<close> and \<open>POST /api/cancel\<close>.
  \<open>fetch\<close> is an effect on the world outside the server: it is a parameter that maps
  the request and the world to the new world and the outcome of the call, which is
  either a rejected promise (a network error) or a response with its \<open>ok\<close> flag and
  status.  The function returns how it completed, the trace of what it did (requests,
  console output, sleeps in milliseconds) and the world it leaves.
\<close>

datatype url = StateUrl string string
  \<comment> \<open>\<open>`http://localhost:5000/api/request/${tx.hash}/accepted`\<close>: the transaction hash and
     the state\<close>

datatype response = Response bool nat

datatype js_error =
    NetworkError string   \<comment> \<open>the error \<open>fetch\<close> rejected with\<close>
  | HttpError nat         \<comment> \<open>\<open>new Error(`HTTP ${response.status}`)\<close>\<close>

datatype fetch_result = Rejected string | Resolved response

datatype 'a completion = Returned 'a | ReturnedUndefined | Thrown js_error

datatype io =
    Fetch string url             \<comment> \<open>method and url\<close>
  | ConsoleLogRetry nat nat nat  \<comment> \<open>\<open>Retry ${i + 1}/${retries} after ${delay}ms...\<close>\<close>
  | Sleep nat
  | ConsoleErrorSync js_error
      \<comment> \<open>\<open>"Failed to update middleware state after 3 retries:", err.message\<close>\<close>

text \<open>The body of the \<open>try\<close> block: the response if it is ok, the thrown error
  otherwise.\<close>

fun attempt :: "fetch_result \<Rightarrow> js_error + response" where
  "attempt (Rejected msg) = Inl (NetworkError msg)"
| "attempt (Resolved (Response ok code)) =
     (if ok then Inr (Response ok code) else Inl (HttpError code))"

function fetchWithRetry_from ::
  "(string \<Rightarrow> url \<Rightarrow> 'w \<Rightarrow> 'w \<times> fetch_result) \<Rightarrow> string \<Rightarrow> url \<Rightarrow> nat \<Rightarrow> nat \<Rightarrow> 'w
     \<Rightarrow> response completion \<times> io list \<times> 'w" where
  "fetchWithRetry_from fetch method u retries i w =
     (if i < retries
      then (case fetch method u w of
              (w', res) \<Rightarrow>
                (case attempt res of
                   Inr r \<Rightarrow> (Returned r, [Fetch method u], w')
                 | Inl err \<Rightarrow>
                     if i = retries - 1 then (Thrown err, [Fetch method u], w')
                     else let delay = 2 ^ i * 1000 in
                       (case fetchWithRetry_from fetch method u retries (i + 1) w' of
                          (c, ios, w'') \<Rightarrow>
                            (c, [Fetch method u, ConsoleLogRetry (i + 1) retries delay,
                                 Sleep delay] @ ios, w''))))
      else (ReturnedUndefined, [], w))"
  by pat_completeness auto
termination
  by (relation "measure (\<lambda>(fetch, method, u, retries, i, w). retries - i)") auto

declare fetchWithRetry_from.simps [simp del]

definition fetchWithRetry ::
  "(string \<Rightarrow> url \<Rightarrow> 'w \<Rightarrow> 'w \<times> fetch_result) \<Rightarrow> string \<Rightarrow> url \<Rightarrow> nat \<Rightarrow> 'w
     \<Rightarrow> response completion \<times> io list \<times> 'w" where
  "fetchWithRetry fetch method u retries w =
     fetchWithRetry_from fetch method u retries 0 w"

text \<open>The handlers.  The ledger call is made with the wallet of the private key in the
  request (\<open>msg_sender\<close>); \<open>tx_hash\<close> is the hash of the transaction it sent.  A revert
  of the ledger call is thrown by the contract binding and answered with status 500
  (other failures of that call, such as an unreachable node or a malformed id, take the
  same path and are not modelled).  Otherwise the bridge is called with the default of three tries; an error it throws
  is caught and written to the console, and the answer is the success of the ledger
  operation either way.  The handler returns the storage of the ledger, what the ledger
  call did, the trace of the bridge, the world and the answer.\<close>

datatype reply =
    Success string string   \<comment> \<open>\<open>{ success: true, txHash, message }\<close>, status 200\<close>
  | Failure error           \<comment> \<open>\<open>{ error: e.message }\<close>, status 500\<close>

definition notify ::
  "(string \<Rightarrow> url \<Rightarrow> 'w \<Rightarrow> 'w \<times> fetch_result) \<Rightarrow> string \<Rightarrow> string \<Rightarrow> 'w \<Rightarrow> io list \<times> 'w" where
  "notify fetch tx_hash state w =
     (case fetchWithRetry fetch ''PATCH'' (StateUrl tx_hash state) 3 w of
        (Thrown err, ios, w') \<Rightarrow> (ios @ [ConsoleErrorSync err], w')
      | (c, ios, w') \<Rightarrow> (ios, w'))"

definition api_confirm ::
  "(string \<Rightarrow> url \<Rightarrow> 'w \<Rightarrow> 'w \<times> fetch_result) \<Rightarrow> behaviour \<Rightarrow> string
     \<Rightarrow> ledger \<Rightarrow> address \<Rightarrow> uint256 \<Rightarrow> 'w
     \<Rightarrow> ledger \<times> effect list \<times> io list \<times> 'w \<times> reply" where
  "api_confirm fetch ext_call tx_hash st msg_sender requestId w =
     (case confirmRequest st msg_sender ext_call requestId of
        Inl e \<Rightarrow> (st, [], [], w, Failure e)
      | Inr (st', effs) \<Rightarrow>
          (case notify fetch tx_hash ''accepted'' w of
             (ios, w') \<Rightarrow> (st', effs, ios, w', Success tx_hash ''Request confirmed'')))"

definition api_cancel ::
  "(string \<Rightarrow> url \<Rightarrow> 'w \<Rightarrow> 'w \<times> fetch_result) \<Rightarrow> behaviour \<Rightarrow> string
     \<Rightarrow> ledger \<Rightarrow> address \<Rightarrow> uint256 \<Rightarrow> string \<Rightarrow> 'w
     \<Rightarrow> ledger \<times> effect list \<times> io list \<times> 'w \<times> reply" where
  "api_cancel fetch ext_call tx_hash st msg_sender requestId reason w =
     (case cancelRequest st msg_sender ext_call requestId reason of
        Inl e \<Rightarrow> (st, [], [], w, Failure e)
      | Inr (st', effs) \<Rightarrow>
          (case notify fetch tx_hash ''rejected'' w of
             (ios, w') \<Rightarrow> (st', effs, ios, w', Success tx_hash ''Request cancelled'')))"

text \<open>Reading a trace: the number of requests sent and the delays slept, in order.\<close>

fun fetches :: "io list \<Rightarrow> nat" where
  "fetches [] = 0"
| "fetches (Fetch method u # ios) = Suc (fetches ios)"
| "fetches (x # ios) = fetches ios"

fun sleeps :: "io list \<Rightarrow> nat list" where
  "sleeps [] = []"
| "sleeps (Sleep delay # ios) = delay # sleeps ios"
| "sleeps (x # ios) = sleeps ios"

subsection \<open>The request store behind the bridge\<close>

text \<open>Modelled from the spec: the Request Store and its \<open>PATCH\<close> endpoint are the
  middleware's (Python) code, which is not among the sources.  The spec describes the
  store as a keyed table with a single-field state update by key, keyed by the
  settlement reference (the transaction hash).  The world seen by \<open>fetch\<close> is the store
  together with the outcomes the coming requests will meet; a \<open>PATCH\<close> answered with an
  ok response is one the store has applied, any other request leaves the store as it
  is.\<close>

record world =
  store :: "string \<rightharpoonup> string"
  outcomes :: "fetch_result list"

fun is_ok :: "fetch_result \<Rightarrow> bool" where
  "is_ok (Resolved (Response ok code)) = ok"
| "is_ok (Rejected msg) = False"

fun store_fetch :: "string \<Rightarrow> url \<Rightarrow> world \<Rightarrow> world \<times> fetch_result" where
  "store_fetch method (StateUrl ref state) w =
     (case outcomes w of
        [] \<Rightarrow> (w, Rejected ''connection refused'')
      | res # rest \<Rightarrow>
          (w\<lparr> store := (if is_ok res \<and> method = ''PATCH''
                         then (store w)(ref \<mapsto> state) else store w),
              outcomes := rest \<rparr>, res))"

section \<open>The pricing rule of the specification\<close>

text \<open>The specification's rule, \<open>requiredPayment = ratePerMinute \<times> durationMinutes \<times>
  numUsers\<close>, in exact integer arithmetic on wei (natural numbers, no bound).  It is
  compared below with what the contract computes.\<close>

definition exact_payment :: "uint256 \<Rightarrow> uint256 \<Rightarrow> nat" where
  "exact_payment dMins nUsers = unat rate_wei * unat dMins * unat nUsers"

section \<open>Properties of the ledger\<close>

subsection \<open>Pricing and creation\<close>

lemma unat_rate: "unat rate_wei = 120000000000000"
  by (simp add: rate_wei_def)

lemma unat_mul: "unat (a::uint256) * unat b < 2 ^ 256 \<Longrightarrow> unat (a * b) = unat a * unat b"
  using unat_mult_lem [of a b] by simp

lemma rate_pos: "0 < unat rate_wei"
  by (simp add: unat_rate)

lemma requiredPayment_Inr:
  "requiredPayment d n = Inr r \<longleftrightarrow> exact_payment d n < 2 ^ 256 \<and> unat r = exact_payment d n"
proof (cases "unat d * unat n < 2 ^ 256")
  case True
  then have dn: "unat (d * n) = unat d * unat n" by (rule unat_mul)
  have ex: "exact_payment d n = unat (d * n) * unat rate_wei"
    by (simp add: exact_payment_def dn mult_ac)
  show ?thesis
  proof (cases "unat (d * n) * unat rate_wei < 2 ^ 256")
    case small: True
    then have "unat (d * n * rate_wei) = unat (d * n) * unat rate_wei"
      by (rule unat_mul)
    with True small show ?thesis
      unfolding requiredPayment_def checked_mul_def ex
      by (auto simp: word_unat_eq_iff)
  next
    case False
    with True show ?thesis
      unfolding requiredPayment_def checked_mul_def ex by simp
  qed
next
  case False
  have "unat d * unat n * 1 \<le> unat d * unat n * unat rate_wei"
    using rate_pos by (intro mult_le_mono2) simp
  then have "unat d * unat n \<le> exact_payment d n"
    by (simp add: exact_payment_def mult_ac)
  with False have "\<not> exact_payment d n < 2 ^ 256"
    by linarith
  with False show ?thesis
    unfolding requiredPayment_def checked_mul_def by simp
qed

lemma requiredPayment_Inl:
  "requiredPayment d n = Inl e \<longleftrightarrow> \<not> exact_payment d n < 2 ^ 256 \<and> e = Panic"
proof (cases "requiredPayment d n")
  case (Inl e')
  then have "e' = Panic"
    by (auto simp: requiredPayment_def checked_mul_def split: if_splits sum.splits)
  moreover have "\<not> exact_payment d n < 2 ^ 256"
  proof
    assume "exact_payment d n < 2 ^ 256"
    then have "requiredPayment d n = Inr (of_nat (exact_payment d n))"
      by (simp add: requiredPayment_Inr unat_of_nat take_bit_nat_eq_self)
    with Inl show False by simp
  qed
  ultimately show ?thesis using Inl by auto
next
  case (Inr r)
  then have "exact_payment d n < 2 ^ 256" by (simp add: requiredPayment_Inr)
  with Inr show ?thesis by simp
qed

lemma createRequest_cases:
  "createRequest st v t b n d od =
     (if b = 0 then Inl InvalidRequester
      else if \<not> exact_payment d n < 2 ^ 256 then Inl Panic
      else if unat v < exact_payment d n then Inl InsufficientPayment
      else if \<not> unat (nextRequestId st) + 1 < 2 ^ 256 then Inl Panic
      else Inr (st\<lparr> nextRequestId := nextRequestId st + 1,
                    requests := (requests st)(nextRequestId st :=
                      \<lparr> req_id = nextRequestId st, buyerOperator = b, numUsers = n,
                        durationMins = d, orderDetails = od, status = Created,
                        createdAt = t, amountPaid = v \<rparr>) \<rparr>,
                nextRequestId st,
                [Emit (RequestCreated (nextRequestId st) b n d od v)]))"
proof (cases "requiredPayment d n")
  case (Inl e)
  then have "\<not> exact_payment d n < 2 ^ 256" "e = Panic"
    by (simp_all add: requiredPayment_Inl)
  with Inl show ?thesis
    unfolding createRequest_def by simp
next
  case (Inr r)
  then have r: "exact_payment d n < 2 ^ 256" "unat r = exact_payment d n"
    by (simp_all add: requiredPayment_Inr)
  have le: "r \<le> v \<longleftrightarrow> \<not> unat v < exact_payment d n"
    using r by (auto simp: word_le_nat_alt)
  show ?thesis
    unfolding createRequest_def Inr checked_inc_def Let_def using r(1) le
    by simp
qed


lemma exact_payment_scenario: "exact_payment 60 2 = 14400000000000000"
  by (simp add: exact_payment_def unat_rate)

lemma list_by_status_unauthorized:
  "msg_sender \<noteq> deployerOperator st \<Longrightarrow> list_by_status st msg_sender s = Inl Unauthorized"
  by (simp add: list_by_status_def)

text \<open>C10: the three status queries carry the \<open>onlyDeployer\<close> modifier: called by
  anyone but the deployer operator they revert with the authorization error, so no other
  party, the requester included, can list requests by status.\<close>

theorem status_queries_only_deployer:
  "msg_sender \<noteq> deployerOperator st \<Longrightarrow>
     getPendingRequests st msg_sender = Inl Unauthorized \<and>
     getConfirmedRequests st msg_sender = Inl Unauthorized \<and>
     getCancelledRequests st msg_sender = Inl Unauthorized"
  by (simp add: getPendingRequests_def getConfirmedRequests_def getCancelledRequests_def
      list_by_status_unauthorized)

theorem status_queries_only_deployer_witness:
  "(2 :: address) \<noteq> deployerOperator (constructor 1) \<and>
   getPendingRequests (constructor 1) 2 = Inl Unauthorized \<and>
   getConfirmedRequests (constructor 1) 2 = Inl Unauthorized \<and>
   getCancelledRequests (constructor 1) 2 = Inl Unauthorized"
proof -
  have neq: "(2 :: address) \<noteq> deployerOperator (constructor 1)"
    by (simp add: constructor_def)
  from status_queries_only_deployer [OF neq] neq show ?thesis
    by simp
qed

text \<open>C3, as stated, fails: with the zero address as requester an underpaid call is
  rejected for the requester, not for the payment.\<close>

theorem createRequest_insufficient_counterexample:
  "unat (10000000000000000 :: uint256) < exact_payment 60 2 \<and>
   createRequest (constructor 1) 10000000000000000 0 0 2 60 0 \<noteq> Inl InsufficientPayment"
  by (simp add: exact_payment_scenario createRequest_def)

text \<open>C3, amended: for a non-zero requester and a price that fits in 256 bits,
  \<open>createRequest\<close> fails with \<open>InsufficientPayment\<close> exactly when the payment is
  below \<open>rate \<times> durationMins \<times> numUsers\<close> in exact integer arithmetic on wei, the rate
  being 0.00012 ether.  The requester is checked first, so the zero address fails with
  \<open>InvalidRequester\<close> whatever the payment, and a price beyond 256 bits reverts in the
  checked multiplication.  For two users and sixty minutes the price is 0.0144 ether;
  0.01 ether is rejected with \<open>InsufficientPayment\<close> and 0.0144 ether creates a request
  with status \<open>Created\<close>.\<close>

theorem createRequest_insufficient_iff:
  "(buyer \<noteq> 0 \<and> exact_payment dMins nUsers < 2 ^ 256 \<longrightarrow>
      (createRequest st msg_value ts buyer nUsers dMins details = Inl InsufficientPayment
         \<longleftrightarrow> unat msg_value < exact_payment dMins nUsers)) \<and>
   (buyer = 0 \<longrightarrow>
      createRequest st msg_value ts buyer nUsers dMins details = Inl InvalidRequester) \<and>
   (buyer \<noteq> 0 \<and> \<not> exact_payment dMins nUsers < 2 ^ 256 \<longrightarrow>
      createRequest st msg_value ts buyer nUsers dMins details = Inl Panic) \<and>
   exact_payment 60 2 = 14400000000000000 \<and>
   (buyer \<noteq> 0 \<longrightarrow>
      createRequest st 10000000000000000 ts buyer 2 60 details = Inl InsufficientPayment) \<and>
   (buyer \<noteq> 0 \<and> unat (nextRequestId st) + 1 < 2 ^ 256 \<longrightarrow>
      (\<exists>st' effs. createRequest st 14400000000000000 ts buyer 2 60 details
                     = Inr (st', nextRequestId st, effs) \<and>
                   status (requests st' (nextRequestId st)) = Created \<and>
                   amountPaid (requests st' (nextRequestId st)) = 14400000000000000))"
  by (simp add: createRequest_cases exact_payment_scenario)

theorem createRequest_insufficient_iff_witness:
  "createRequest (constructor 1) 10000000000000000 0 2 2 60 0 = Inl InsufficientPayment \<and>
   createRequest (constructor 1) 14400000000000000 0 2 2 60 0 \<noteq> Inl InsufficientPayment \<and>
   createRequest (constructor 1) 10000000000000000 0 0 2 60 0 = Inl InvalidRequester \<and>
   createRequest (constructor 1) 0 0 2 (2 ^ 255) 2 0 = Inl Panic"
proof -
  have ex: "exact_payment 60 2 < 2 ^ 256"
    by (simp add: exact_payment_scenario)
  have big: "\<not> exact_payment 2 (2 ^ 255) < 2 ^ 256"
    by (simp add: exact_payment_def unat_rate)
  have nx: "unat (nextRequestId (constructor 1)) + 1 < 2 ^ 256"
    by (simp add: constructor_def)
  show ?thesis
    using createRequest_insufficient_iff [of 2 60 2 "constructor 1" 10000000000000000 0 0]
      createRequest_insufficient_iff [of 2 60 2 "constructor 1" 14400000000000000 0 0]
      createRequest_insufficient_iff [of 0 60 2 "constructor 1" 10000000000000000 0 0]
      createRequest_insufficient_iff [of 2 2 "2 ^ 255" "constructor 1" 0 0 0]
      ex big nx
    by (simp add: exact_payment_scenario)
qed


lemma exact_payment_double_duration:
  "unat d < 2 ^ 255 \<Longrightarrow> exact_payment (2 * d) n = 2 * exact_payment d n"
proof -
  assume "unat d < 2 ^ 255"
  then have "unat (2 :: uint256) * unat d < 2 ^ 256" by simp
  then have "unat (2 * d) = 2 * unat d"
    using unat_mul [of 2 d] by simp
  then show ?thesis by (simp add: exact_payment_def)
qed

lemma exact_payment_double_users:
  "unat n < 2 ^ 255 \<Longrightarrow> exact_payment d (2 * n) = 2 * exact_payment d n"
proof -
  assume "unat n < 2 ^ 255"
  then have "unat (2 :: uint256) * unat n < 2 ^ 256" by simp
  then have "unat (2 * n) = 2 * unat n"
    using unat_mul [of 2 n] by simp
  then show ?thesis by (simp add: exact_payment_def)
qed

lemma requiredPayment_doubles:
  assumes "requiredPayment d2 n2 = Inr r2"
    and "exact_payment d2 n2 = 2 * exact_payment d n"
  shows "\<exists>r. requiredPayment d n = Inr r \<and> unat r2 = 2 * unat r"
proof -
  from assms(1) have r2: "exact_payment d2 n2 < 2 ^ 256" "unat r2 = exact_payment d2 n2"
    by (simp_all add: requiredPayment_Inr)
  with assms(2) have small: "exact_payment d n < 2 ^ 256" by linarith
  then have "requiredPayment d n = Inr (of_nat (exact_payment d n))"
    by (simp add: requiredPayment_Inr unat_of_nat take_bit_nat_eq_self)
  moreover from small have "unat (of_nat (exact_payment d n) :: uint256) = exact_payment d n"
    by (simp add: unat_of_nat take_bit_nat_eq_self)
  ultimately show ?thesis using r2 assms(2) by simp
qed

text \<open>C5, as stated, fails: the price is not defined for every input.  A duration
  whose price still fits in 256 bits can have a double whose price does not, and then
  the checked multiplication reverts instead of giving twice the price.\<close>

theorem pricing_doubling_counterexample:
  "unat (2 ^ 209 :: uint256) < 2 ^ 255 \<and>
   requiredPayment (2 ^ 209) 1 = Inr (2 ^ 209 * 120000000000000) \<and>
   requiredPayment (2 * 2 ^ 209) 1 = Inl Panic"
  by (simp add: requiredPayment_def checked_mul_def rate_wei_def)

text \<open>C5, amended: the payment \<open>createRequest\<close> requires is the exact product of the
  rate, the duration and the number of users whenever it computes one.  Doubling the
  duration, or the number of users, doubles it as long as the doubled price fits in 256
  bits: if the contract computes a price for the doubled input, it computes one for the
  original input, and the first is twice the second.  Acceptance is a threshold: a
  payment below the exact price is always rejected, and a payment at or above it is
  accepted from a valid requester (while the id counter has room, which
  \<open>nextRequestId++\<close> checks).\<close>

theorem pricing_linear_and_threshold:
  "(requiredPayment dMins nUsers = Inr required \<longrightarrow> unat required = exact_payment dMins nUsers) \<and>
   (unat dMins < 2 ^ 255 \<and> requiredPayment (2 * dMins) nUsers = Inr doubled \<longrightarrow>
      (\<exists>r. requiredPayment dMins nUsers = Inr r \<and> unat doubled = 2 * unat r)) \<and>
   (unat nUsers < 2 ^ 255 \<and> requiredPayment dMins (2 * nUsers) = Inr doubled' \<longrightarrow>
      (\<exists>r. requiredPayment dMins nUsers = Inr r \<and> unat doubled' = 2 * unat r)) \<and>
   (unat msg_value < exact_payment dMins nUsers \<longrightarrow>
      (\<exists>e. createRequest st msg_value ts buyer nUsers dMins details = Inl e)) \<and>
   (exact_payment dMins nUsers \<le> unat msg_value \<and> buyer \<noteq> 0 \<and>
    unat (nextRequestId st) + 1 < 2 ^ 256 \<longrightarrow>
      (\<exists>st' effs. createRequest st msg_value ts buyer nUsers dMins details
                     = Inr (st', nextRequestId st, effs)))"
proof (intro conjI impI)
  assume "requiredPayment dMins nUsers = Inr required"
  then show "unat required = exact_payment dMins nUsers"
    by (simp add: requiredPayment_Inr)
next
  assume "unat dMins < 2 ^ 255 \<and> requiredPayment (2 * dMins) nUsers = Inr doubled"
  then show "\<exists>r. requiredPayment dMins nUsers = Inr r \<and> unat doubled = 2 * unat r"
    using requiredPayment_doubles [of "2 * dMins" nUsers doubled dMins nUsers]
      exact_payment_double_duration [of dMins nUsers] by simp
next
  assume "unat nUsers < 2 ^ 255 \<and> requiredPayment dMins (2 * nUsers) = Inr doubled'"
  then show "\<exists>r. requiredPayment dMins nUsers = Inr r \<and> unat doubled' = 2 * unat r"
    using requiredPayment_doubles [of dMins "2 * nUsers" doubled' dMins nUsers]
      exact_payment_double_users [of nUsers dMins] by simp
next
  assume "unat msg_value < exact_payment dMins nUsers"
  then show "\<exists>e. createRequest st msg_value ts buyer nUsers dMins details = Inl e"
    by (simp add: createRequest_cases)
next
  assume a: "exact_payment dMins nUsers \<le> unat msg_value \<and> buyer \<noteq> 0 \<and>
    unat (nextRequestId st) + 1 < 2 ^ 256"
  have "unat msg_value < 2 ^ 256"
    using unsigned_less [of msg_value] by simp
  with a have "exact_payment dMins nUsers < 2 ^ 256" by linarith
  with a show "\<exists>st' effs. createRequest st msg_value ts buyer nUsers dMins details
                     = Inr (st', nextRequestId st, effs)"
    by (simp add: createRequest_cases)
qed

theorem pricing_linear_and_threshold_witness:
  "unat (30 :: uint256) < 2 ^ 255 \<and>
   requiredPayment (2 * 30) 2 = Inr 14400000000000000 \<and>
   (\<exists>r. requiredPayment 30 2 = Inr r \<and> unat (14400000000000000 :: uint256) = 2 * unat r) \<and>
   unat (2 :: uint256) < 2 ^ 255 \<and>
   requiredPayment 60 (2 * 2) = Inr 28800000000000000 \<and>
   (\<exists>r. requiredPayment 60 2 = Inr r \<and> unat (28800000000000000 :: uint256) = 2 * unat r) \<and>
   unat (14399999999999999 :: uint256) < exact_payment 60 2 \<and>
   (\<exists>e. createRequest (constructor 1) 14399999999999999 0 2 2 60 0 = Inl e) \<and>
   exact_payment 60 2 \<le> unat (14400000000000000 :: uint256) \<and>
   (\<exists>st' effs. createRequest (constructor 1) 14400000000000000 0 2 2 60 0 = Inr (st', 0, effs))"
proof -
  have r2: "requiredPayment 60 2 = Inr 14400000000000000"
    by (simp add: requiredPayment_Inr exact_payment_def unat_rate)
  have r3: "requiredPayment 60 4 = Inr 28800000000000000"
    by (simp add: requiredPayment_Inr exact_payment_def unat_rate)
  have nx: "unat (nextRequestId (constructor 1)) + 1 < 2 ^ 256"
    "nextRequestId (constructor 1) = 0"
    by (simp_all add: constructor_def)
  have ex: "exact_payment 60 2 = 14400000000000000"
    by (rule exact_payment_scenario)
  show ?thesis
    using pricing_linear_and_threshold [where dMins = 60 and nUsers = 2
        and msg_value = 14399999999999999 and st = "constructor 1" and buyer = 2
        and ts = 0 and details = 0]
      pricing_linear_and_threshold [where dMins = 60 and nUsers = 2
        and msg_value = 14400000000000000 and st = "constructor 1" and buyer = 2
        and ts = 0 and details = 0]
      pricing_linear_and_threshold [where dMins = 30 and nUsers = 2
        and doubled = 14400000000000000]
      pricing_linear_and_threshold [where dMins = 60 and nUsers = 2
        and doubled' = 28800000000000000]
      r2 r3 nx ex
    by simp
qed

text \<open>C9: \<open>createRequest\<close> does not ask for a positive number of users or a
  positive duration.  If either is zero the required payment is zero, so a call that
  pays nothing succeeds for a non-zero requester: it stores, at the next id, a request
  with the given requester, capacity and details, status \<open>Created\<close> and zero escrow,
  advances the id counter and emits \<open>RequestCreated\<close>.  \<open>cancelRequest\<close> by the deployer
  then sets that request to \<open>Cancelled\<close> whatever the environment would do, and its only
  effect is the \<open>RequestCancelled\<close> event: no refund call is made.\<close>

theorem zero_capacity_request:
  assumes "nUsers = 0 \<or> dMins = 0" and "buyer \<noteq> 0"
    and "unat (nextRequestId st) + 1 < 2 ^ 256"
  shows "requiredPayment dMins nUsers = Inr 0 \<and>
    createRequest st 0 ts buyer nUsers dMins details
      = Inr (st\<lparr> nextRequestId := nextRequestId st + 1,
                  requests := (requests st)(nextRequestId st :=
                    \<lparr> req_id = nextRequestId st, buyerOperator = buyer, numUsers = nUsers,
                      durationMins = dMins, orderDetails = details, status = Created,
                      createdAt = ts, amountPaid = 0 \<rparr>) \<rparr>,
             nextRequestId st,
             [Emit (RequestCreated (nextRequestId st) buyer nUsers dMins details 0)]) \<and>
    cancelRequest
        (st\<lparr> nextRequestId := nextRequestId st + 1,
             requests := (requests st)(nextRequestId st :=
               \<lparr> req_id = nextRequestId st, buyerOperator = buyer, numUsers = nUsers,
                 durationMins = dMins, orderDetails = details, status = Created,
                 createdAt = ts, amountPaid = 0 \<rparr>) \<rparr>)
        (deployerOperator st) ext_call (nextRequestId st) reason
      = Inr (st\<lparr> nextRequestId := nextRequestId st + 1,
                  requests := (requests st)(nextRequestId st :=
                    \<lparr> req_id = nextRequestId st, buyerOperator = buyer, numUsers = nUsers,
                      durationMins = dMins, orderDetails = details, status = Cancelled,
                      createdAt = ts, amountPaid = 0 \<rparr>) \<rparr>,
             [Emit (RequestCancelled (nextRequestId st) reason)])"
proof -
  from assms(1) have z: "exact_payment dMins nUsers = 0"
    by (auto simp: exact_payment_def)
  have r: "requiredPayment dMins nUsers = Inr 0"
    using z by (simp add: requiredPayment_Inr)
  have c: "createRequest st 0 ts buyer nUsers dMins details
      = Inr (st\<lparr> nextRequestId := nextRequestId st + 1,
                  requests := (requests st)(nextRequestId st :=
                    \<lparr> req_id = nextRequestId st, buyerOperator = buyer, numUsers = nUsers,
                      durationMins = dMins, orderDetails = details, status = Created,
                      createdAt = ts, amountPaid = 0 \<rparr>) \<rparr>,
             nextRequestId st,
             [Emit (RequestCreated (nextRequestId st) buyer nUsers dMins details 0)])"
    using assms(2,3) z by (simp add: createRequest_cases)
  have x: "cancelRequest
        (st\<lparr> nextRequestId := nextRequestId st + 1,
             requests := (requests st)(nextRequestId st :=
               \<lparr> req_id = nextRequestId st, buyerOperator = buyer, numUsers = nUsers,
                 durationMins = dMins, orderDetails = details, status = Created,
                 createdAt = ts, amountPaid = 0 \<rparr>) \<rparr>)
        (deployerOperator st) ext_call (nextRequestId st) reason
      = Inr (st\<lparr> nextRequestId := nextRequestId st + 1,
                  requests := (requests st)(nextRequestId st :=
                    \<lparr> req_id = nextRequestId st, buyerOperator = buyer, numUsers = nUsers,
                      durationMins = dMins, orderDetails = details, status = Cancelled,
                      createdAt = ts, amountPaid = 0 \<rparr>) \<rparr>,
             [Emit (RequestCancelled (nextRequestId st) reason)])"
    by (cases ext_call) simp
  from r c x show ?thesis by blast
qed

theorem zero_capacity_request_witness:
  "requiredPayment 60 0 = Inr 0 \<and>
   createRequest (constructor 1) 0 9 2 0 60 5
     = Inr (\<lparr> deployerOperator = 1, nextRequestId = 1,
              requests = (\<lambda>_. zero_request)(0 :=
                \<lparr> req_id = 0, buyerOperator = 2, numUsers = 0, durationMins = 60,
                  orderDetails = 5, status = Created, createdAt = 9, amountPaid = 0 \<rparr>) \<rparr>,
            0, [Emit (RequestCreated 0 2 0 60 5 0)]) \<and>
   cancelRequest
       \<lparr> deployerOperator = 1, nextRequestId = 1,
         requests = (\<lambda>_. zero_request)(0 :=
           \<lparr> req_id = 0, buyerOperator = 2, numUsers = 0, durationMins = 60,
             orderDetails = 5, status = Created, createdAt = 9, amountPaid = 0 \<rparr>) \<rparr>
       1 rejecting 0 ''none''
     = Inr (\<lparr> deployerOperator = 1, nextRequestId = 1,
              requests = (\<lambda>_. zero_request)(0 :=
                \<lparr> req_id = 0, buyerOperator = 2, numUsers = 0, durationMins = 60,
                  orderDetails = 5, status = Cancelled, createdAt = 9, amountPaid = 0 \<rparr>) \<rparr>,
            [Emit (RequestCancelled 0 ''none'')])"
proof -
  have nx: "unat (nextRequestId (constructor 1)) + 1 < 2 ^ 256"
    by (simp add: constructor_def)
  have b: "(2 :: address) \<noteq> 0" by simp
  have z: "(0 :: uint256) = 0 \<or> (60 :: uint256) = 0" by simp
  from zero_capacity_request [OF z b nx, of 9 5 rejecting "''none''"] show ?thesis
    by (simp add: constructor_def)
qed

subsection \<open>Single calls and histories\<close>

lemma createRequest_Inr:
  "createRequest st v t b n d od = Inr (st', i, effs) \<longleftrightarrow>
     b \<noteq> 0 \<and> exact_payment d n \<le> unat v \<and> unat (nextRequestId st) + 1 < 2 ^ 256 \<and>
     i = nextRequestId st \<and>
     st' = st\<lparr> nextRequestId := nextRequestId st + 1,
                requests := (requests st)(nextRequestId st :=
                  \<lparr> req_id = nextRequestId st, buyerOperator = b, numUsers = n,
                    durationMins = d, orderDetails = od, status = Created,
                    createdAt = t, amountPaid = v \<rparr>) \<rparr> \<and>
     effs = [Emit (RequestCreated (nextRequestId st) b n d od v)]"
proof -
  have "unat v < 2 ^ 256" using unsigned_less [of v] by simp
  then have "exact_payment d n \<le> unat v \<Longrightarrow> exact_payment d n < 2 ^ 256"
    by linarith
  then show ?thesis
    by (auto simp: createRequest_cases not_less)
qed

lemma unat_next: "unat (a :: uint256) + 1 < 2 ^ 256 \<Longrightarrow> unat (a + 1) = unat a + 1"
  by (simp add: unat_word_ariths)

lemma less_next: "unat (a :: uint256) + 1 < 2 ^ 256 \<Longrightarrow> j < a + 1 \<longleftrightarrow> j < a \<or> j = a"
  by (auto simp: word_less_nat_alt unat_next word_unat_eq_iff)

lemma le_next: "unat (a :: uint256) + 1 < 2 ^ 256 \<Longrightarrow> a + 1 \<le> j \<longleftrightarrow> a \<le> j \<and> j \<noteq> a"
  by (auto simp: word_le_nat_alt unat_next word_unat_eq_iff)

lemma evolves_refl: "evolves r r"
  by (simp add: evolves_def)

lemma evolves_terminal: "evolves r r' \<Longrightarrow> status r \<noteq> Created \<Longrightarrow> r' = r"
  by (auto simp: evolves_def)

lemma evolves_trans: "evolves r r' \<Longrightarrow> evolves r' r'' \<Longrightarrow> evolves r r''"
  by (auto simp: evolves_def)

lemma evolves_finalise:
  "evolves r r' \<Longrightarrow> status r = Created \<Longrightarrow> s = Confirmed \<or> s = Cancelled \<Longrightarrow>
     evolves r (r'\<lparr> status := s \<rparr>)"
  by (auto simp: evolves_def)

lemma evolves_req_id: "evolves r r' \<Longrightarrow> req_id r' = req_id r"
  by (auto simp: evolves_def)

lemma zero_shape_status:
  "r = zero_request\<lparr> status := status r \<rparr> \<Longrightarrow>
     r\<lparr> status := s \<rparr> = zero_request\<lparr> status := s \<rparr>"
  by (cases r) (simp add: zero_request_def)

lemma follows_refl: "follows st st"
  by (simp add: follows_def evolves_refl)

lemma follows_trans:
  assumes "follows st st'" and "follows st' st''"
  shows "follows st st''"
proof -
  from assms have mono: "nextRequestId st \<le> nextRequestId st'"
    "nextRequestId st' \<le> nextRequestId st''"
    by (simp_all add: follows_def)
  have "evolves (requests st j) (requests st'' j)" if "j < nextRequestId st" for j
  proof -
    from that mono(1) have "j < nextRequestId st'" by simp
    with assms that show ?thesis
      unfolding follows_def by (blast intro: evolves_trans)
  qed
  with assms mono show ?thesis
    unfolding follows_def by auto
qed

lemma follows_create:
  assumes "createRequest st v t b n d od = Inr (st', i, effs)"
  shows "follows st st'"
proof -
  from assms have cr: "unat (nextRequestId st) + 1 < 2 ^ 256"
    "st' = st\<lparr> nextRequestId := nextRequestId st + 1,
                requests := (requests st)(nextRequestId st :=
                  \<lparr> req_id = nextRequestId st, buyerOperator = b, numUsers = n,
                    durationMins = d, orderDetails = od, status = Created,
                    createdAt = t, amountPaid = v \<rparr>) \<rparr>"
    by (simp_all add: createRequest_Inr)
  have d: "deployerOperator st' = deployerOperator st"
    by (simp add: cr(2))
  have m: "nextRequestId st \<le> nextRequestId st'"
    using cr(1) by (simp add: cr(2) word_le_nat_alt unat_next)
  have e: "evolves (requests st j) (requests st' j)" if "j < nextRequestId st" for j
    using that by (auto simp: cr(2) evolves_refl)
  have i: "ledger_inv st'" if "ledger_inv st"
    unfolding ledger_inv_def
  proof (intro allI conjI impI)
    fix j assume "j < nextRequestId st'"
    with that cr(1) show "req_id (requests st' j) = j"
      by (auto simp: cr(2) ledger_inv_def less_next)
  next
    fix j assume "nextRequestId st' \<le> j"
    with that cr(1) show "requests st' j = zero_request\<lparr> status := status (requests st' j) \<rparr>"
      by (auto simp: cr(2) ledger_inv_def le_next)
  qed
  from d m e i show ?thesis
    unfolding follows_def by blast
qed

lemma follows_finalise:
  assumes "follows st st1" and "status (requests st i) = Created"
    and "s = Confirmed \<or> s = Cancelled"
  shows "follows st (st1\<lparr> requests := (requests st1)(i := (requests st1 i)\<lparr> status := s \<rparr>) \<rparr>)"
    (is "follows st ?st'")
proof -
  from assms(1) have d: "deployerOperator ?st' = deployerOperator st"
    and m: "nextRequestId st \<le> nextRequestId ?st'"
    by (simp_all add: follows_def)
  have e: "evolves (requests st j) (requests ?st' j)" if "j < nextRequestId st" for j
  proof (cases "j = i")
    case True
    from assms(1) that have "evolves (requests st i) (requests st1 i)"
      by (simp add: follows_def True)
    from evolves_finalise [OF this assms(2,3)] True show ?thesis by simp
  next
    case False
    with assms(1) that show ?thesis by (simp add: follows_def)
  qed
  have i: "ledger_inv ?st'" if "ledger_inv st"
  proof -
    from assms(1) that have "ledger_inv st1" by (simp add: follows_def)
    then have inv1: "\<And>j. j < nextRequestId st1 \<Longrightarrow> req_id (requests st1 j) = j"
      "\<And>j. nextRequestId st1 \<le> j \<Longrightarrow>
         requests st1 j = zero_request\<lparr> status := status (requests st1 j) \<rparr>"
      by (simp_all add: ledger_inv_def)
    show ?thesis
      unfolding ledger_inv_def
    proof (intro allI conjI impI)
      fix j assume "j < nextRequestId ?st'"
      with inv1(1) [of j] show "req_id (requests ?st' j) = j" by auto
    next
      fix j assume "nextRequestId ?st' \<le> j"
      then have z: "requests st1 j = zero_request\<lparr> status := status (requests st1 j) \<rparr>"
        using inv1(2) [of j] by simp
      show "requests ?st' j = zero_request\<lparr> status := status (requests ?st' j) \<rparr>"
      proof (cases "j = i")
        case True
        with zero_shape_status [OF z, of s] show ?thesis by simp
      next
        case False
        with z show ?thesis by simp
      qed
    qed
  qed
  from d m e i show ?thesis
    unfolding follows_def by blast
qed

lemma calls_follow:
  "confirmRequest st s b i = Inr (st', effs) \<Longrightarrow> follows st st'"
  "cancelRequest st s b i reason = Inr (st', effs) \<Longrightarrow> follows st st'"
  "callbacks st xs = (st', effs) \<Longrightarrow> follows st st'"
proof (induction st s b i and st s b i reason and st xs
    arbitrary: st' effs and st' effs and st' effs
    rule: confirmRequest_cancelRequest_callbacks.induct)
  case (1 st msg_sender sent inner i)
  obtain st1 effs1 where cb: "callbacks st inner = (st1, effs1)"
    by (cases "callbacks st inner")
  from "1.prems" have g: "msg_sender = deployerOperator st" "status (requests st i) = Created"
    "sent"
    by (auto split: if_splits)
  with "1.prems" cb
  have st': "st' = st1\<lparr> requests := (requests st1)(i := (requests st1 i)\<lparr> status := Confirmed \<rparr>) \<rparr>"
    by simp
  from g have "follows st st1"
    by (intro "1.IH" [OF _ _ _ cb]) simp_all
  from follows_finalise [OF this g(2), of Confirmed] st' show ?case
    by simp
next
  case (2 st msg_sender refunded inner i reason)
  from "2.prems" have g: "msg_sender = deployerOperator st" "status (requests st i) = Created"
    by (auto split: if_splits)
  show ?case
  proof (cases "amountPaid (requests st i) > 0")
    case True
    obtain st1 effs1 where cb: "callbacks st inner = (st1, effs1)"
      by (cases "callbacks st inner")
    from "2.prems" g True have r: "refunded"
      by (auto split: if_splits)
    with "2.prems" g True cb
    have st': "st' = st1\<lparr> requests := (requests st1)(i := (requests st1 i)\<lparr> status := Cancelled \<rparr>) \<rparr>"
      by simp
    from g True r have "follows st st1"
      by (intro "2.IH" [OF _ _ _ _ cb]) simp_all
    from follows_finalise [OF this g(2), of Cancelled] st' show ?thesis
      by simp
  next
    case False
    with "2.prems" g
    have "st' = st\<lparr> requests := (requests st)(i := (requests st i)\<lparr> status := Cancelled \<rparr>) \<rparr>"
      by simp
    with follows_finalise [OF follows_refl g(2), of Cancelled] show ?thesis
      by simp
  qed
next
  case (3 st)
  then show ?case by (simp add: follows_refl)
next
  case (4 st msg_value block_timestamp buyer nUsers dMins details b rest)
  show ?case
  proof (cases "createRequest st msg_value block_timestamp buyer nUsers dMins details")
    case (Inl e)
    with "4.prems" have "callbacks st rest = (st', effs)" by simp
    from "4.IH"(1) [OF Inl this] show ?thesis .
  next
    case (Inr x)
    obtain st1 i effs1 where x: "x = (st1, i, effs1)" by (cases x)
    obtain st2 effs2 where cb: "callbacks st1 rest = (st2, effs2)"
      by (cases "callbacks st1 rest")
    from "4.prems" Inr x cb have "st' = st2" by simp
    moreover have "follows st st1"
      using follows_create Inr x by blast
    moreover have "follows st1 st2"
      using "4.IH"(2) [OF Inr [unfolded x] refl refl cb] .
    ultimately show ?thesis by (blast intro: follows_trans)
  qed
next
  case (5 st msg_sender i b rest)
  show ?case
  proof (cases "confirmRequest st msg_sender b i")
    case (Inl e)
    with "5.prems" have "callbacks st rest = (st', effs)" by simp
    from "5.IH"(2) [OF Inl this] show ?thesis .
  next
    case (Inr x)
    obtain st1 effs1 where x: "x = (st1, effs1)" by (cases x)
    obtain st2 effs2 where cb: "callbacks st1 rest = (st2, effs2)"
      by (cases "callbacks st1 rest")
    from "5.prems" Inr x cb have "st' = st2" by simp
    moreover have "follows st st1"
      using "5.IH"(1) Inr x by blast
    moreover have "follows st1 st2"
      using "5.IH"(3) [OF Inr [unfolded x] refl cb] .
    ultimately show ?thesis by (blast intro: follows_trans)
  qed
next
  case (6 st msg_sender i reason b rest)
  show ?case
  proof (cases "cancelRequest st msg_sender b i reason")
    case (Inl e)
    with "6.prems" have "callbacks st rest = (st', effs)" by simp
    from "6.IH"(2) [OF Inl this] show ?thesis .
  next
    case (Inr x)
    obtain st1 effs1 where x: "x = (st1, effs1)" by (cases x)
    obtain st2 effs2 where cb: "callbacks st1 rest = (st2, effs2)"
      by (cases "callbacks st1 rest")
    from "6.prems" Inr x cb have "st' = st2" by simp
    moreover have "follows st st1"
      using "6.IH"(1) Inr x by blast
    moreover have "follows st1 st2"
      using "6.IH"(3) [OF Inr [unfolded x] refl cb] .
    ultimately show ?thesis by (blast intro: follows_trans)
  qed
qed

lemma exec_follows: "exec b st c = (st', effs) \<Longrightarrow> follows st st'"
proof (cases c)
  case (CallCreate v t buyer n d od)
  assume "exec b st c = (st', effs)"
  with CallCreate show ?thesis
    by (cases "createRequest st v t buyer n d od")
       (auto simp: follows_refl dest: follows_create)
next
  case (CallConfirm s i)
  assume "exec b st c = (st', effs)"
  with CallConfirm show ?thesis
    by (cases "confirmRequest st s b i")
       (auto simp: follows_refl dest: calls_follow(1))
next
  case (CallCancel s i reason)
  assume "exec b st c = (st', effs)"
  with CallCancel show ?thesis
    by (cases "cancelRequest st s b i reason")
       (auto simp: follows_refl dest: calls_follow(2))
qed

lemma run_follows: "run st txs = (st', log) \<Longrightarrow> follows st st'"
proof (induction txs arbitrary: st log st')
  case Nil
  then show ?case by (simp add: follows_refl)
next
  case (Cons tx txs)
  obtain b c where tx: "tx = (b, c)" by (cases tx)
  obtain st1 effs where ex: "exec b st c = (st1, effs)" by (cases "exec b st c")
  obtain st2 log2 where rn: "run st1 txs = (st2, log2)" by (cases "run st1 txs")
  from Cons.prems tx ex rn have "st' = st2" by simp
  with exec_follows [OF ex] Cons.IH [OF rn] show ?case
    by (blast intro: follows_trans)
qed

lemma constructor_inv: "ledger_inv (constructor d)"
  by (simp add: ledger_inv_def constructor_def zero_request_def)

lemma reachable_inv: "run (constructor d) txs = (st, log) \<Longrightarrow> ledger_inv st"
  using run_follows [of "constructor d" txs st log] constructor_inv [of d]
  by (simp add: follows_def)

lemma run_deployer: "run st txs = (st', log) \<Longrightarrow> deployerOperator st' = deployerOperator st"
  by (drule run_follows) (simp add: follows_def)

lemma confirmRequest_terminal:
  "status (requests st i) \<noteq> Created \<Longrightarrow>
     confirmRequest st s b i
       = Inl (if s = deployerOperator st then InvalidState else Unauthorized)"
  by (cases b) simp

lemma cancelRequest_terminal:
  "status (requests st i) \<noteq> Created \<Longrightarrow>
     cancelRequest st s b i reason
       = Inl (if s = deployerOperator st then InvalidState else Unauthorized)"
  by (cases b) simp

lemma run_one_create:
  "run (constructor 1) [(accepting, CallCreate 0 0 2 0 0 0)]
     = (\<lparr> deployerOperator = 1, nextRequestId = 1,
          requests = (\<lambda>_. zero_request)(0 := \<lparr> req_id = 0, buyerOperator = 2, numUsers = 0,
            durationMins = 0, orderDetails = 0, status = Created, createdAt = 0,
            amountPaid = 0 \<rparr>) \<rparr>,
        [(0, Emit (RequestCreated 0 2 0 0 0 0))])"
  by (simp add: constructor_def createRequest_cases exact_payment_def)

lemma exec_changes_by_deployer:
  assumes "exec b st c = (st', effs)" and "i < nextRequestId st"
    and "requests st' i \<noteq> requests st i"
  shows "(\<exists>j. c = CallConfirm (deployerOperator st) j) \<or>
    (\<exists>j why. c = CallCancel (deployerOperator st) j why)"
proof (cases c)
  case (CallCreate v t buyer n d od)
  show ?thesis
  proof (cases "createRequest st v t buyer n d od")
    case (Inl e)
    with assms CallCreate show ?thesis by simp
  next
    case (Inr x)
    obtain st1 k effs1 where x: "x = (st1, k, effs1)" by (cases x)
    from assms(1) CallCreate Inr x have "st' = st1" by simp
    with Inr x assms(2) have "requests st' i = requests st i"
      by (auto simp: createRequest_Inr)
    with assms(3) show ?thesis by simp
  qed
next
  case (CallConfirm s j)
  show ?thesis
  proof (cases "s = deployerOperator st")
    case True
    with CallConfirm show ?thesis by simp
  next
    case False
    then have "confirmRequest st s b j = Inl Unauthorized"
      by (cases b) simp
    with assms CallConfirm show ?thesis by simp
  qed
next
  case (CallCancel s j why)
  show ?thesis
  proof (cases "s = deployerOperator st")
    case True
    with CallCancel show ?thesis by simp
  next
    case False
    then have "cancelRequest st s b j why = Inl Unauthorized"
      by (cases b) simp
    with assms CallCancel show ?thesis by simp
  qed
qed

lemma exec_plain_request_at:
  assumes "exec (Behaviour sent []) st c = (st', effs)" and "i < nextRequestId st"
    and "requests st' i \<noteq> requests st i"
  shows "status (requests st i) = Created \<and>
    ((c = CallConfirm (deployerOperator st) i \<and>
      requests st' i = (requests st i)\<lparr> status := Confirmed \<rparr>) \<or>
     (\<exists>why. c = CallCancel (deployerOperator st) i why \<and>
      requests st' i = (requests st i)\<lparr> status := Cancelled \<rparr>))"
proof (cases c)
  case (CallCreate v t buyer n d od)
  from exec_changes_by_deployer [OF assms] CallCreate show ?thesis by simp
next
  case (CallConfirm s j)
  with assms(1) have e: "(case confirmRequest st s (Behaviour sent []) j of
      Inl e \<Rightarrow> (st, []) | Inr (st1, effs1) \<Rightarrow> (st1, effs1)) = (st', effs)"
    by simp
  show ?thesis
  proof (cases "s = deployerOperator st \<and> status (requests st j) = Created \<and> sent")
    case True
    with e have "st' = st\<lparr> requests := (requests st)(j := (requests st j)\<lparr> status := Confirmed \<rparr>) \<rparr>"
      by simp
    with assms(3) True CallConfirm show ?thesis
      by (cases "j = i") auto
  next
    case False
    with e have "st' = st" by (auto split: if_splits)
    with assms(3) show ?thesis by simp
  qed
next
  case (CallCancel s j why)
  with assms(1) have e: "(case cancelRequest st s (Behaviour sent []) j why of
      Inl e \<Rightarrow> (st, []) | Inr (st1, effs1) \<Rightarrow> (st1, effs1)) = (st', effs)"
    by simp
  show ?thesis
  proof (cases "s = deployerOperator st \<and> status (requests st j) = Created \<and>
      (0 < amountPaid (requests st j) \<longrightarrow> sent)")
    case True
    with e have "st' = st\<lparr> requests := (requests st)(j := (requests st j)\<lparr> status := Cancelled \<rparr>) \<rparr>"
      by (auto split: if_splits)
    with assms(3) True CallCancel show ?thesis
      by (cases "j = i") auto
  next
    case False
    with e have "st' = st" by (auto split: if_splits)
    with assms(3) show ?thesis by simp
  qed
qed

text \<open>C1, as stated, fails: on a confirmed request, a caller other than the deployer
  is turned away by \<open>onlyDeployer\<close> before the status is looked at, so the error is
  not the state conflict.\<close>

theorem terminal_not_state_conflict_counterexample:
  "status (requests (fst (run (constructor 1)
      [(accepting, CallCreate 0 0 2 0 0 0), (accepting, CallConfirm 1 0)])) 0) = Confirmed \<and>
   confirmRequest (fst (run (constructor 1)
      [(accepting, CallCreate 0 0 2 0 0 0), (accepting, CallConfirm 1 0)])) 2 accepting 0
     \<noteq> Inl InvalidState \<and>
   cancelRequest (fst (run (constructor 1)
      [(accepting, CallCreate 0 0 2 0 0 0), (accepting, CallConfirm 1 0)])) 2 accepting 0
      ''late'' \<noteq> Inl InvalidState"
  by (simp add: constructor_def createRequest_cases exact_payment_def accepting_def
      zero_request_def)

text \<open>C1, amended: on a request whose status is \<open>Confirmed\<close> or \<open>Cancelled\<close>, both
  \<open>confirmRequest\<close> and \<open>cancelRequest\<close> fail and leave the whole ledger unchanged; the
  error is the state conflict when the deployer calls and the authorization error for
  any other caller.  A created request (one whose id is below \<open>nextRequestId\<close>) that is
  \<open>Confirmed\<close> or \<open>Cancelled\<close> when a call begins is the same when the call ends, and
  one that is \<open>Created\<close> when a call begins is, when the call ends, either the same or
  changed in its status alone, to \<open>Confirmed\<close> or to \<open>Cancelled\<close>; this holds whatever
  the recipients of payments do during the call, calls back into the ledger included.
  A call that changes a created request is a \<open>confirmRequest\<close> or a \<open>cancelRequest\<close>
  sent by the deployer; when the recipient of the payment makes no call back, it is the
  call naming that very request, the request was \<open>Created\<close>, and \<open>confirmRequest\<close> made
  it \<open>Confirmed\<close>, \<open>cancelRequest\<close> made it \<open>Cancelled\<close>.  What the status goes through
  while a call is still paying is not part of this statement.\<close>

theorem terminal_requests_stay:
  "(status (requests st i) \<noteq> Created \<longrightarrow>
      confirmRequest st msg_sender ext_call i
        = Inl (if msg_sender = deployerOperator st then InvalidState else Unauthorized) \<and>
      cancelRequest st msg_sender ext_call i reason
        = Inl (if msg_sender = deployerOperator st then InvalidState else Unauthorized) \<and>
      exec ext_call st (CallConfirm msg_sender i) = (st, []) \<and>
      exec ext_call st (CallCancel msg_sender i reason) = (st, [])) \<and>
   (i < nextRequestId st \<and> status (requests st i) \<noteq> Created \<and>
    exec ext_call st c = (st', effs) \<longrightarrow> requests st' i = requests st i) \<and>
   (i < nextRequestId st \<and> status (requests st i) = Created \<and>
    exec ext_call st c = (st', effs) \<longrightarrow>
      requests st' i = requests st i \<or>
      requests st' i = (requests st i)\<lparr> status := Confirmed \<rparr> \<or>
      requests st' i = (requests st i)\<lparr> status := Cancelled \<rparr>) \<and>
   (i < nextRequestId st \<and> exec ext_call st c = (st', effs) \<and>
    requests st' i \<noteq> requests st i \<longrightarrow>
      (\<exists>j. c = CallConfirm (deployerOperator st) j) \<or>
      (\<exists>j why. c = CallCancel (deployerOperator st) j why)) \<and>
   (i < nextRequestId st \<and> exec (Behaviour sent []) st c = (st', effs) \<and>
    requests st' i \<noteq> requests st i \<longrightarrow>
      status (requests st i) = Created \<and>
      ((c = CallConfirm (deployerOperator st) i \<and>
        requests st' i = (requests st i)\<lparr> status := Confirmed \<rparr>) \<or>
       (\<exists>why. c = CallCancel (deployerOperator st) i why \<and>
        requests st' i = (requests st i)\<lparr> status := Cancelled \<rparr>)))"
proof (intro conjI impI)
  assume t: "status (requests st i) \<noteq> Created"
  then show "confirmRequest st msg_sender ext_call i
        = Inl (if msg_sender = deployerOperator st then InvalidState else Unauthorized)"
    by (rule confirmRequest_terminal)
  from t show "cancelRequest st msg_sender ext_call i reason
        = Inl (if msg_sender = deployerOperator st then InvalidState else Unauthorized)"
    by (rule cancelRequest_terminal)
  from t show "exec ext_call st (CallConfirm msg_sender i) = (st, [])"
    by (simp add: confirmRequest_terminal)
  from t show "exec ext_call st (CallCancel msg_sender i reason) = (st, [])"
    by (simp add: cancelRequest_terminal)
next
  assume a: "i < nextRequestId st \<and> status (requests st i) \<noteq> Created \<and>
    exec ext_call st c = (st', effs)"
  then have "follows st st'" by (blast intro: exec_follows)
  with a have "evolves (requests st i) (requests st' i)"
    by (simp add: follows_def)
  with a show "requests st' i = requests st i"
    by (blast dest: evolves_terminal)
next
  assume a: "i < nextRequestId st \<and> status (requests st i) = Created \<and>
    exec ext_call st c = (st', effs)"
  then have "follows st st'" by (blast intro: exec_follows)
  with a have "evolves (requests st i) (requests st' i)"
    by (simp add: follows_def)
  then show "requests st' i = requests st i \<or>
      requests st' i = (requests st i)\<lparr> status := Confirmed \<rparr> \<or>
      requests st' i = (requests st i)\<lparr> status := Cancelled \<rparr>"
    by (auto simp: evolves_def)
next
  assume a: "i < nextRequestId st \<and> exec ext_call st c = (st', effs) \<and>
    requests st' i \<noteq> requests st i"
  then show "(\<exists>j. c = CallConfirm (deployerOperator st) j) \<or>
      (\<exists>j why. c = CallCancel (deployerOperator st) j why)"
    by (blast dest: exec_changes_by_deployer)
next
  assume a: "i < nextRequestId st \<and> exec (Behaviour sent []) st c = (st', effs) \<and>
    requests st' i \<noteq> requests st i"
  then have b: "status (requests st i) = Created \<and>
    ((c = CallConfirm (deployerOperator st) i \<and>
      requests st' i = (requests st i)\<lparr> status := Confirmed \<rparr>) \<or>
     (\<exists>why. c = CallCancel (deployerOperator st) i why \<and>
      requests st' i = (requests st i)\<lparr> status := Cancelled \<rparr>))"
    by (blast dest: exec_plain_request_at)
  from b show "status (requests st i) = Created" by simp
  from b show "(c = CallConfirm (deployerOperator st) i \<and>
        requests st' i = (requests st i)\<lparr> status := Confirmed \<rparr>) \<or>
       (\<exists>why. c = CallCancel (deployerOperator st) i why \<and>
        requests st' i = (requests st i)\<lparr> status := Cancelled \<rparr>)" by simp
qed

theorem terminal_requests_stay_witness:
  "status (requests ((constructor 1)\<lparr> nextRequestId := 1,
       requests := (\<lambda>_. zero_request\<lparr> status := Cancelled \<rparr>) \<rparr>) 0) \<noteq> Created \<and>
   confirmRequest ((constructor 1)\<lparr> nextRequestId := 1,
       requests := (\<lambda>_. zero_request\<lparr> status := Cancelled \<rparr>) \<rparr>) 1 accepting 0
     = Inl InvalidState \<and>
   cancelRequest ((constructor 1)\<lparr> nextRequestId := 1,
       requests := (\<lambda>_. zero_request\<lparr> status := Cancelled \<rparr>) \<rparr>) 1 accepting 0 ''again''
     = Inl InvalidState \<and>
   exec accepting ((constructor 1)\<lparr> nextRequestId := 1,
       requests := (\<lambda>_. zero_request\<lparr> status := Cancelled \<rparr>) \<rparr>) (CallConfirm 1 0)
     = ((constructor 1)\<lparr> nextRequestId := 1,
       requests := (\<lambda>_. zero_request\<lparr> status := Cancelled \<rparr>) \<rparr>, [])"
proof -
  define st where "st = (constructor 1)\<lparr> nextRequestId := 1,
       requests := (\<lambda>_. zero_request\<lparr> status := Cancelled \<rparr>) \<rparr>"
  have t: "status (requests st 0) \<noteq> Created"
    by (simp add: st_def)
  have d: "deployerOperator st = 1"
    by (simp add: st_def constructor_def)
  from terminal_requests_stay [where st = st and i = 0 and msg_sender = 1
      and ext_call = accepting and reason = "''again''", THEN conjunct1] t d
  have "status (requests st 0) \<noteq> Created \<and>
    confirmRequest st 1 accepting 0 = Inl InvalidState \<and>
    cancelRequest st 1 accepting 0 ''again'' = Inl InvalidState \<and>
    exec accepting st (CallConfirm 1 0) = (st, [])"
    by simp
  then show ?thesis unfolding st_def .
qed

subsection \<open>Ids that were never created\<close>

text \<open>C8, as stated, fails: an id at or above \<open>nextRequestId\<close> that has been confirmed
  once is still at or above \<open>nextRequestId\<close>, but its slot is \<open>Confirmed\<close> and a
  second confirmation or a cancellation fails with the state conflict; and on a fresh
  slot \<open>confirmRequest\<close> fails when the deployer rejects the transfer of zero.\<close>

theorem never_created_id_counterexample:
  "nextRequestId (fst (run (constructor 1) [(accepting, CallConfirm 1 7)])) \<le> 7 \<and>
   status (requests (fst (run (constructor 1) [(accepting, CallConfirm 1 7)])) 7) = Confirmed \<and>
   confirmRequest (fst (run (constructor 1) [(accepting, CallConfirm 1 7)])) 1 accepting 7
     = Inl InvalidState \<and>
   cancelRequest (fst (run (constructor 1) [(accepting, CallConfirm 1 7)])) 1 accepting 7 ''no''
     = Inl InvalidState \<and>
   confirmRequest (constructor 1) 1 rejecting 7 = Inl PaymentFailed"
  by (simp add: constructor_def accepting_def rejecting_def zero_request_def)

text \<open>C8, amended: after any history from deployment, an id that was never created
  (one at or above \<open>nextRequestId\<close>) and whose slot still reads \<open>Created\<close>, that is one
  no call has confirmed or cancelled yet, holds the all-zero record.  So, called by the
  deployer, \<open>confirmRequest\<close> on it succeeds when the transfer of zero to the deployer
  goes through, marking the slot \<open>Confirmed\<close> (and fails with the payment error when it
  does not), and \<open>cancelRequest\<close> on it succeeds with no transfer and marks it
  \<open>Cancelled\<close>; neither reports a missing request or a state conflict.\<close>

theorem never_created_id_can_be_finalised:
  assumes "run (constructor deployer) txs = (st, log)"
    and "nextRequestId st \<le> i"
    and "status (requests st i) = Created"
  shows "requests st i = zero_request \<and>
    confirmRequest st deployer accepting i
      = Inr (st\<lparr> requests := (requests st)(i := zero_request\<lparr> status := Confirmed \<rparr>) \<rparr>,
             [Transfer deployer 0, Emit (RequestConfirmed i)]) \<and>
    (\<exists>st' effs. confirmRequest st deployer (Behaviour True inner) i
                   = Inr (st', Transfer deployer 0 # effs) \<and>
                 status (requests st' i) = Confirmed) \<and>
    confirmRequest st deployer (Behaviour False inner) i = Inl PaymentFailed \<and>
    cancelRequest st deployer ext_call i reason
      = Inr (st\<lparr> requests := (requests st)(i := zero_request\<lparr> status := Cancelled \<rparr>) \<rparr>,
             [Emit (RequestCancelled i reason)])"
proof -
  from run_deployer [OF assms(1)] have d: "deployerOperator st = deployer"
    by (simp add: constructor_def)
  from reachable_inv [OF assms(1)] assms(2)
  have "requests st i = zero_request\<lparr> status := status (requests st i) \<rparr>"
    by (simp add: ledger_inv_def)
  with assms(3) have z: "requests st i = zero_request"
    by (simp add: zero_request_def)
  have s: "status zero_request = Created" "amountPaid zero_request = 0"
    by (simp_all add: zero_request_def)
  have c1: "confirmRequest st deployer accepting i
      = Inr (st\<lparr> requests := (requests st)(i := zero_request\<lparr> status := Confirmed \<rparr>) \<rparr>,
             [Transfer deployer 0, Emit (RequestConfirmed i)])"
    using d z s by (simp add: accepting_def)
  obtain st1 effs1 where cb: "callbacks st inner = (st1, effs1)"
    by (cases "callbacks st inner")
  have c2: "\<exists>st' effs. confirmRequest st deployer (Behaviour True inner) i
                   = Inr (st', Transfer deployer 0 # effs) \<and>
                 status (requests st' i) = Confirmed"
    using d z s cb by simp
  have c3: "confirmRequest st deployer (Behaviour False inner) i = Inl PaymentFailed"
    using d z s by simp
  have c4: "cancelRequest st deployer ext_call i reason
      = Inr (st\<lparr> requests := (requests st)(i := zero_request\<lparr> status := Cancelled \<rparr>) \<rparr>,
             [Emit (RequestCancelled i reason)])"
    using d z s by (cases ext_call) simp
  from z c1 c2 c3 c4 show ?thesis by blast
qed

theorem never_created_id_can_be_finalised_witness:
  "nextRequestId (fst (run (constructor 1) [(accepting, CallCreate 0 0 2 0 0 0)])) \<le> 7 \<and>
   status (requests (fst (run (constructor 1) [(accepting, CallCreate 0 0 2 0 0 0)])) 7)
     = Created \<and>
   requests (fst (run (constructor 1) [(accepting, CallCreate 0 0 2 0 0 0)])) 7 = zero_request \<and>
   (\<exists>st'. confirmRequest (fst (run (constructor 1) [(accepting, CallCreate 0 0 2 0 0 0)]))
            1 accepting 7
          = Inr (st', [Transfer 1 0, Emit (RequestConfirmed 7)])) \<and>
   (\<exists>st'. cancelRequest (fst (run (constructor 1) [(accepting, CallCreate 0 0 2 0 0 0)]))
            1 rejecting 7 ''why''
          = Inr (st', [Emit (RequestCancelled 7 ''why'')]))"
proof -
  define txs where "txs = [(accepting, CallCreate 0 0 2 0 0 0)]"
  define st where "st = fst (run (constructor 1) txs)"
  define log where "log = snd (run (constructor 1) txs)"
  have r: "run (constructor 1) txs = (st, log)"
    by (simp add: st_def log_def)
  have n: "nextRequestId st \<le> 7"
    unfolding st_def txs_def run_one_create by simp
  have c: "status (requests st 7) = Created"
    unfolding st_def txs_def run_one_create by (simp add: zero_request_def)
  note t = never_created_id_can_be_finalised [OF r n c]
  from t [of "[]" accepting]
  have c1: "requests st 7 = zero_request"
    "\<exists>st'. confirmRequest st 1 accepting 7 = Inr (st', [Transfer 1 0, Emit (RequestConfirmed 7)])"
    by simp_all
  from t [of "[]" rejecting "''why''"]
  have c2: "\<exists>st'. cancelRequest st 1 rejecting 7 ''why''
     = Inr (st', [Emit (RequestCancelled 7 ''why'')])"
    by simp
  from n c c1 c2 show ?thesis
    unfolding st_def txs_def by blast
qed

subsection \<open>Escrow\<close>

text \<open>A payment or refund that the recipient rejects reverts the call: nothing is
  stored and nothing is paid.\<close>

lemma rejected_transfer_reverts:
  assumes "msg_sender = deployerOperator st" and "status (requests st i) = Created"
  shows "confirmRequest st msg_sender (Behaviour False inner) i = Inl PaymentFailed"
    and "exec (Behaviour False inner) st (CallConfirm msg_sender i) = (st, [])"
    and "amountPaid (requests st i) \<noteq> 0 \<Longrightarrow>
      cancelRequest st msg_sender (Behaviour False inner) i reason = Inl RefundFailed"
    and "amountPaid (requests st i) \<noteq> 0 \<Longrightarrow>
      exec (Behaviour False inner) st (CallCancel msg_sender i reason) = (st, [])"
  using assms by (simp_all add: word_greater_zero_iff)

text \<open>C2 fails on the code: the status is written after the payment call has returned,
  so a deployer that is a contract and calls \<open>confirmRequest\<close> again while it is being
  paid finds the request still \<open>Created\<close> and is paid its escrow a second time, out of
  the escrow of another request; if it calls \<open>cancelRequest\<close> instead, the requester is
  refunded as well and the request ends \<open>Confirmed\<close>.  Two requests of 0.0144 ether
  each are created, then the deployer confirms the first.\<close>

theorem escrow_paid_twice_on_reentry:
  "run (constructor 1)
     [(accepting, CallCreate 14400000000000000 5 2 2 60 0),
      (accepting, CallCreate 14400000000000000 6 3 2 60 0),
      (Behaviour True [(CallConfirm 1 0, accepting)], CallConfirm 1 0)]
   = (\<lparr> deployerOperator = 1, nextRequestId = 2,
        requests = (\<lambda>_. zero_request)
          (0 := \<lparr> req_id = 0, buyerOperator = 2, numUsers = 2, durationMins = 60,
                  orderDetails = 0, status = Confirmed, createdAt = 5,
                  amountPaid = 14400000000000000 \<rparr>,
           1 := \<lparr> req_id = 1, buyerOperator = 3, numUsers = 2, durationMins = 60,
                  orderDetails = 0, status = Created, createdAt = 6,
                  amountPaid = 14400000000000000 \<rparr>) \<rparr>,
      [(0, Emit (RequestCreated 0 2 2 60 0 14400000000000000)),
       (1, Emit (RequestCreated 1 3 2 60 0 14400000000000000)),
       (0, Transfer 1 14400000000000000),
       (0, Transfer 1 14400000000000000),
       (0, Emit (RequestConfirmed 0)),
       (0, Emit (RequestConfirmed 0))]) \<and>
   payouts 0 (snd (run (constructor 1)
     [(accepting, CallCreate 14400000000000000 5 2 2 60 0),
      (accepting, CallCreate 14400000000000000 6 3 2 60 0),
      (Behaviour True [(CallConfirm 1 0, accepting)], CallConfirm 1 0)]))
   = [(1, 14400000000000000), (1, 14400000000000000)] \<and>
   payouts 0 (snd (run (constructor 1)
     [(accepting, CallCreate 14400000000000000 5 2 2 60 0),
      (accepting, CallCreate 14400000000000000 6 3 2 60 0),
      (Behaviour True [(CallCancel 1 0 ''changed my mind'', accepting)], CallConfirm 1 0)]))
   = [(1, 14400000000000000), (2, 14400000000000000)] \<and>
   status (requests (fst (run (constructor 1)
     [(accepting, CallCreate 14400000000000000 5 2 2 60 0),
      (accepting, CallCreate 14400000000000000 6 3 2 60 0),
      (Behaviour True [(CallCancel 1 0 ''changed my mind'', accepting)], CallConfirm 1 0)])) 0)
   = Confirmed"
  by (simp add: constructor_def createRequest_cases exact_payment_def unat_rate
      accepting_def fun_upd_twist)

subsection \<open>The status queries return the requests by status, in id order\<close>

lemma ids_step:
  assumes "i < (n :: uint256)"
  shows "map of_nat [unat i ..< unat n] = i # map of_nat [unat (i + 1) ..< unat n]"
proof -
  from assms have lt: "unat i < unat n" by (simp add: word_less_nat_alt)
  moreover have "unat n < 2 ^ 256" using unsigned_less [of n] by simp
  ultimately have "unat i + 1 < 2 ^ 256" by linarith
  then have "unat (i + 1) = Suc (unat i)" by (simp add: unat_next)
  with lt show ?thesis by (simp add: upt_conv_Cons)
qed

lemma ids_done: "\<not> i < (n :: uint256) \<Longrightarrow> map of_nat [unat i ..< unat n] = ([] :: uint256 list)"
  by (simp add: word_less_nat_alt)

lemma count_loop_eq:
  "count_loop st s i c =
     c + length (filter (\<lambda>r. status r = s)
           (map (requests st) (map of_nat [unat i ..< unat (nextRequestId st)])))"
proof (induction st s i c rule: count_loop.induct)
  case (1 st s i c)
  show ?case
  proof (cases "i < nextRequestId st")
    case True
    from "1.IH" [OF True] True show ?thesis
      by (subst count_loop.simps) (simp add: ids_step [OF True])
  next
    case False
    then show ?thesis
      by (subst count_loop.simps) (simp add: ids_done [OF False])
  qed
qed

lemma fill_loop_eq:
  "index + length (filter (\<lambda>r. status r = s)
       (map (requests st) (map of_nat [unat i ..< unat (nextRequestId st)]))) \<le> length arr \<Longrightarrow>
   fill_loop st s i index arr =
     Inr (take index arr @
          filter (\<lambda>r. status r = s)
            (map (requests st) (map of_nat [unat i ..< unat (nextRequestId st)])) @
          drop (index + length (filter (\<lambda>r. status r = s)
            (map (requests st) (map of_nat [unat i ..< unat (nextRequestId st)])))) arr)"
proof (induction st s i index arr rule: fill_loop.induct)
  case (1 st s i index arr)
  define rest where "rest = (\<lambda>j :: uint256. filter (\<lambda>r. status r = s)
       (map (requests st) (map of_nat [unat j ..< unat (nextRequestId st)])))"
  have rest_eq: "\<And>j. filter (\<lambda>r. status r = s)
       (map (requests st) (map of_nat [unat j ..< unat (nextRequestId st)])) = rest j"
    by (simp only: rest_def)
  note bound = "1.prems" [unfolded rest_eq]
  show ?case
    unfolding rest_eq
  proof (cases "i < nextRequestId st")
    case False
    have "rest i = []"
      unfolding rest_def ids_done [OF False] by simp
    with False show "fill_loop st s i index arr
        = Inr (take index arr @ rest i @ drop (index + length (rest i)) arr)"
      by (subst fill_loop.simps) simp
  next
    case True
    show "fill_loop st s i index arr
        = Inr (take index arr @ rest i @ drop (index + length (rest i)) arr)"
    proof (cases "status (requests st i) = s")
      case hit: True
      then have ri: "rest i = requests st i # rest (i + 1)"
        unfolding rest_def ids_step [OF True] by simp
      with bound have len: "index < length arr"
        "index + 1 + length (rest (i + 1)) \<le> length (arr[index := requests st i])"
        by simp_all
      have tk: "take (index + 1) (arr[index := requests st i]) = take index arr @ [requests st i]"
        using len(1) by (simp add: take_Suc_conv_app_nth)
      have dr: "drop (index + 1 + length (rest (i + 1))) (arr[index := requests st i])
          = drop (index + 1 + length (rest (i + 1))) arr"
        by simp
      note ih = "1.IH"(1) [OF True hit len(1), unfolded rest_eq, OF len(2)]
      have "fill_loop st s (i + 1) (index + 1) (arr[index := requests st i])
         = Inr (take index arr @ rest i @ drop (index + length (rest i)) arr)"
        unfolding ih tk dr ri by simp
      with True hit len(1) show ?thesis
        by (subst fill_loop.simps) simp
    next
      case miss: False
      then have ri: "rest i = rest (i + 1)"
        unfolding rest_def ids_step [OF True] by simp
      from bound ri have b': "index + length (rest (i + 1)) \<le> length arr"
        by simp
      note ih = "1.IH"(2) [OF True miss, unfolded rest_eq, OF b']
      with True miss ri show ?thesis
        by (subst fill_loop.simps) simp
    qed
  qed
qed

lemma list_by_status_deployer:
  "list_by_status st (deployerOperator st) s = Inr (with_status st s)"
proof -
  have c: "count_loop st s 0 0 = length (with_status st s)"
    by (simp add: count_loop_eq with_status_def ids_upto_def)
  have "fill_loop st s 0 0 (replicate (length (with_status st s)) zero_request)
      = Inr (with_status st s)"
    using fill_loop_eq [of 0 s st 0 "replicate (length (with_status st s)) zero_request"]
    by (simp add: with_status_def ids_upto_def)
  with c show ?thesis
    by (simp add: list_by_status_def Let_def)
qed

lemma filter_status_lengths:
  "length (filter (\<lambda>r. status r = Created) xs) + length (filter (\<lambda>r. status r = Confirmed) xs)
     + length (filter (\<lambda>r. status r = Cancelled) xs) = length xs"
proof (induction xs)
  case Nil
  then show ?case by simp
next
  case (Cons x xs)
  then show ?case by (cases "status x") simp_all
qed

lemma set_ids_upto: "set (ids_upto n) = {i. i < n}"
proof (intro set_eqI iffI)
  fix i assume "i \<in> set (ids_upto n)"
  then obtain k where k: "k < unat n" "i = of_nat k"
    by (auto simp: ids_upto_def)
  have "unat n < 2 ^ 256" using unsigned_less [of n] by simp
  with k(1) have "unat (of_nat k :: uint256) = k"
    by (simp add: unat_of_nat take_bit_nat_eq_self)
  with k show "i \<in> {i. i < n}"
    by (simp add: word_less_nat_alt)
next
  fix i assume "i \<in> {i. i < n}"
  then have "unat i < unat n" by (simp add: word_less_nat_alt)
  then have "unat i \<in> set [0 ..< unat n]" by simp
  then have "(of_nat (unat i) :: uint256) \<in> of_nat ` set [0 ..< unat n]" by (rule imageI)
  then show "i \<in> set (ids_upto n)" by (simp add: ids_upto_def)
qed

lemma sorted_ids_upto: "sorted_wrt (<) (ids_upto n)"
proof -
  have "unat n < 2 ^ 256" using unsigned_less [of n] by simp
  then have "\<And>x y. x < y \<Longrightarrow> y < unat n \<Longrightarrow> (of_nat x :: uint256) < of_nat y"
    by (simp add: word_less_nat_alt unat_of_nat take_bit_nat_eq_self)
  then have "sorted_wrt (\<lambda>x y. (of_nat x :: uint256) < of_nat y) [0 ..< unat n]"
    by (simp add: sorted_wrt_iff_nth_less)
  then show ?thesis
    by (simp add: ids_upto_def sorted_wrt_map)
qed

lemma ids_of_with_status:
  assumes "\<forall>j. j < nextRequestId st \<longrightarrow> req_id (requests st j) = j"
  shows "map req_id (with_status st s)
    = filter (\<lambda>i. status (requests st i) = s) (ids_upto (nextRequestId st))"
proof -
  have "\<forall>i \<in> set (ids_upto (nextRequestId st)). req_id (requests st i) = i"
    using assms by (simp add: set_ids_upto)
  then have "map req_id (filter (\<lambda>r. status r = s) (map (requests st) ids))
      = filter (\<lambda>i. status (requests st i) = s) ids"
    if "set ids \<subseteq> set (ids_upto (nextRequestId st))" for ids
    using that by (induction ids) auto
  then show ?thesis by (simp add: with_status_def)
qed


text \<open>C4: in every state the ledger can reach from deployment, the three status
  queries, called by the deployer, return the stored requests with an id below
  \<open>nextRequestId\<close> split by status: the three lengths add up to the number of created
  requests, every such request is in the list of its own status and in no other, every
  listed record is the stored record of a created id, and each list is in strictly
  ascending order of id.  The lists are a function of the storage alone, so the order in
  which requests were confirmed or cancelled does not show.\<close>

theorem status_queries_partition:
  assumes "run (constructor deployer) txs = (st, log)"
  shows "getPendingRequests st deployer = Inr (with_status st Created) \<and>
    getConfirmedRequests st deployer = Inr (with_status st Confirmed) \<and>
    getCancelledRequests st deployer = Inr (with_status st Cancelled) \<and>
    length (with_status st Created) + length (with_status st Confirmed)
      + length (with_status st Cancelled) = unat (nextRequestId st) \<and>
    (\<forall>s. sorted_wrt (<) (map req_id (with_status st s))) \<and>
    (\<forall>s. \<forall>r \<in> set (with_status st s).
       req_id r < nextRequestId st \<and> r = requests st (req_id r) \<and> status r = s) \<and>
    (\<forall>s i. i < nextRequestId st \<longrightarrow>
       (i \<in> set (map req_id (with_status st s)) \<longleftrightarrow> status (requests st i) = s))"
proof -
  from run_deployer [OF assms] have d: "deployerOperator st = deployer"
    by (simp add: constructor_def)
  from reachable_inv [OF assms]
  have own: "\<forall>j. j < nextRequestId st \<longrightarrow> req_id (requests st j) = j"
    by (simp add: ledger_inv_def)
  note ids = ids_of_with_status [OF own]
  have q: "getPendingRequests st deployer = Inr (with_status st Created)"
    "getConfirmedRequests st deployer = Inr (with_status st Confirmed)"
    "getCancelledRequests st deployer = Inr (with_status st Cancelled)"
    using list_by_status_deployer [of st] d
    by (simp_all add: getPendingRequests_def getConfirmedRequests_def getCancelledRequests_def)
  have len: "length (with_status st Created) + length (with_status st Confirmed)
      + length (with_status st Cancelled) = unat (nextRequestId st)"
    using filter_status_lengths [of "map (requests st) (ids_upto (nextRequestId st))"]
    by (simp add: with_status_def ids_upto_def)
  have srt: "\<forall>s. sorted_wrt (<) (map req_id (with_status st s))"
    by (simp add: ids sorted_wrt_filter sorted_ids_upto)
  have el: "\<forall>s. \<forall>r \<in> set (with_status st s).
       req_id r < nextRequestId st \<and> r = requests st (req_id r) \<and> status r = s"
  proof (intro allI ballI)
    fix s r assume "r \<in> set (with_status st s)"
    then obtain i where i: "i \<in> set (ids_upto (nextRequestId st))" "r = requests st i"
      "status r = s"
      by (auto simp: with_status_def)
    from i(1) have "i < nextRequestId st" by (simp add: set_ids_upto)
    with own i show "req_id r < nextRequestId st \<and> r = requests st (req_id r) \<and> status r = s"
      by simp
  qed
  have mem: "\<forall>s i. i < nextRequestId st \<longrightarrow>
       (i \<in> set (map req_id (with_status st s)) \<longleftrightarrow> status (requests st i) = s)"
    by (simp add: ids set_ids_upto)
  from q len srt el mem show ?thesis by blast
qed

lemma ids_upto_4: "ids_upto 4 = [0, 1, 2, 3]"
proof -
  have "[0 ..< 4] = [0, 1, 2, Suc 2]"
    by (simp add: upt_rec)
  then show ?thesis
    by (simp add: ids_upto_def)
qed

lemma run_listing_history:
  "run (constructor 1)
     [(accepting, CallCreate 0 10 2 0 0 0),
      (accepting, CallCreate 0 11 2 0 0 0),
      (accepting, CallCreate 0 12 2 0 0 0),
      (accepting, CallCreate 0 13 2 0 0 0),
      (accepting, CallConfirm 1 3),
      (accepting, CallCancel 1 2 ''no''),
      (accepting, CallConfirm 1 1)]
   = (\<lparr> deployerOperator = 1, nextRequestId = 4,
        requests = (\<lambda>_. zero_request)
          (0 := \<lparr> req_id = 0, buyerOperator = 2, numUsers = 0, durationMins = 0,
                  orderDetails = 0, status = Created, createdAt = 10, amountPaid = 0 \<rparr>,
           1 := \<lparr> req_id = 1, buyerOperator = 2, numUsers = 0, durationMins = 0,
                  orderDetails = 0, status = Confirmed, createdAt = 11, amountPaid = 0 \<rparr>,
           2 := \<lparr> req_id = 2, buyerOperator = 2, numUsers = 0, durationMins = 0,
                  orderDetails = 0, status = Cancelled, createdAt = 12, amountPaid = 0 \<rparr>,
           3 := \<lparr> req_id = 3, buyerOperator = 2, numUsers = 0, durationMins = 0,
                  orderDetails = 0, status = Confirmed, createdAt = 13, amountPaid = 0 \<rparr>) \<rparr>,
      [(0, Emit (RequestCreated 0 2 0 0 0 0)),
       (1, Emit (RequestCreated 1 2 0 0 0 0)),
       (2, Emit (RequestCreated 2 2 0 0 0 0)),
       (3, Emit (RequestCreated 3 2 0 0 0 0)),
       (3, Transfer 1 0),
       (3, Emit (RequestConfirmed 3)),
       (2, Emit (RequestCancelled 2 ''no'')),
       (1, Transfer 1 0),
       (1, Emit (RequestConfirmed 1))])"
  by (simp add: constructor_def createRequest_cases exact_payment_def
      accepting_def fun_upd_twist)

theorem status_queries_partition_witness:
  "getPendingRequests (fst (run (constructor 1)
     [(accepting, CallCreate 0 10 2 0 0 0),
      (accepting, CallCreate 0 11 2 0 0 0),
      (accepting, CallCreate 0 12 2 0 0 0),
      (accepting, CallCreate 0 13 2 0 0 0),
      (accepting, CallConfirm 1 3),
      (accepting, CallCancel 1 2 ''no''),
      (accepting, CallConfirm 1 1)])) 1
    = Inr [\<lparr> req_id = 0, buyerOperator = 2, numUsers = 0, durationMins = 0,
             orderDetails = 0, status = Created, createdAt = 10, amountPaid = 0 \<rparr>] \<and>
   getConfirmedRequests (fst (run (constructor 1)
     [(accepting, CallCreate 0 10 2 0 0 0),
      (accepting, CallCreate 0 11 2 0 0 0),
      (accepting, CallCreate 0 12 2 0 0 0),
      (accepting, CallCreate 0 13 2 0 0 0),
      (accepting, CallConfirm 1 3),
      (accepting, CallCancel 1 2 ''no''),
      (accepting, CallConfirm 1 1)])) 1
    = Inr [\<lparr> req_id = 1, buyerOperator = 2, numUsers = 0, durationMins = 0,
             orderDetails = 0, status = Confirmed, createdAt = 11, amountPaid = 0 \<rparr>,
           \<lparr> req_id = 3, buyerOperator = 2, numUsers = 0, durationMins = 0,
             orderDetails = 0, status = Confirmed, createdAt = 13, amountPaid = 0 \<rparr>] \<and>
   getCancelledRequests (fst (run (constructor 1)
     [(accepting, CallCreate 0 10 2 0 0 0),
      (accepting, CallCreate 0 11 2 0 0 0),
      (accepting, CallCreate 0 12 2 0 0 0),
      (accepting, CallCreate 0 13 2 0 0 0),
      (accepting, CallConfirm 1 3),
      (accepting, CallCancel 1 2 ''no''),
      (accepting, CallConfirm 1 1)])) 1
    = Inr [\<lparr> req_id = 2, buyerOperator = 2, numUsers = 0, durationMins = 0,
             orderDetails = 0, status = Cancelled, createdAt = 12, amountPaid = 0 \<rparr>]"
proof -
  define txs where "txs =
     [(accepting, CallCreate 0 10 2 0 0 0),
      (accepting, CallCreate 0 11 2 0 0 0),
      (accepting, CallCreate 0 12 2 0 0 0),
      (accepting, CallCreate 0 13 2 0 0 0),
      (accepting, CallConfirm 1 3),
      (accepting, CallCancel 1 2 ''no''),
      (accepting, CallConfirm 1 1)]"
  define st where "st = fst (run (constructor 1) txs)"
  define log where "log = snd (run (constructor 1) txs)"
  have r: "run (constructor 1) txs = (st, log)"
    by (simp add: st_def log_def)
  have st: "st = \<lparr> deployerOperator = 1, nextRequestId = 4,
        requests = (\<lambda>_. zero_request)
          (0 := \<lparr> req_id = 0, buyerOperator = 2, numUsers = 0, durationMins = 0,
                  orderDetails = 0, status = Created, createdAt = 10, amountPaid = 0 \<rparr>,
           1 := \<lparr> req_id = 1, buyerOperator = 2, numUsers = 0, durationMins = 0,
                  orderDetails = 0, status = Confirmed, createdAt = 11, amountPaid = 0 \<rparr>,
           2 := \<lparr> req_id = 2, buyerOperator = 2, numUsers = 0, durationMins = 0,
                  orderDetails = 0, status = Cancelled, createdAt = 12, amountPaid = 0 \<rparr>,
           3 := \<lparr> req_id = 3, buyerOperator = 2, numUsers = 0, durationMins = 0,
                  orderDetails = 0, status = Confirmed, createdAt = 13, amountPaid = 0 \<rparr>) \<rparr>"
    unfolding st_def txs_def run_listing_history by simp
  have w: "with_status st Created
      = [\<lparr> req_id = 0, buyerOperator = 2, numUsers = 0, durationMins = 0,
             orderDetails = 0, status = Created, createdAt = 10, amountPaid = 0 \<rparr>]"
    "with_status st Confirmed
      = [\<lparr> req_id = 1, buyerOperator = 2, numUsers = 0, durationMins = 0,
             orderDetails = 0, status = Confirmed, createdAt = 11, amountPaid = 0 \<rparr>,
           \<lparr> req_id = 3, buyerOperator = 2, numUsers = 0, durationMins = 0,
             orderDetails = 0, status = Confirmed, createdAt = 13, amountPaid = 0 \<rparr>]"
    "with_status st Cancelled
      = [\<lparr> req_id = 2, buyerOperator = 2, numUsers = 0, durationMins = 0,
             orderDetails = 0, status = Cancelled, createdAt = 12, amountPaid = 0 \<rparr>]"
    unfolding st by (simp_all add: with_status_def ids_upto_4)
  from status_queries_partition [OF r] w show ?thesis
    unfolding st_def txs_def by simp
qed

section \<open>Properties of the sync bridge\<close>

lemma fetchWithRetry_from_trace:
  "fetchWithRetry_from fetch meth u retries i w = (c, ios, w') \<Longrightarrow>
     (i < retries \<longrightarrow> 1 \<le> fetches ios) \<and>
     fetches ios \<le> retries - i \<and>
     sleeps ios = map (\<lambda>k. 2 ^ k * 1000) [i ..< i + (fetches ios - 1)] \<and>
     (\<forall>err. c = Thrown err \<longrightarrow> fetches ios = retries - i) \<and>
     (c = ReturnedUndefined \<longleftrightarrow> retries \<le> i)"
proof (induction fetch meth u retries i w arbitrary: c ios w'
    rule: fetchWithRetry_from.induct)
  case (1 fetch meth u retries i w)
  show ?case
  proof (cases "i < retries")
    case False
    with "1.prems" show ?thesis
      by (subst (asm) fetchWithRetry_from.simps) auto
  next
    case True
    obtain w1 res where f: "fetch meth u w = (w1, res)"
      by (cases "fetch meth u w")
    show ?thesis
    proof (cases "attempt res")
      case (Inr r)
      with "1.prems" True f show ?thesis
        by (subst (asm) fetchWithRetry_from.simps) auto
    next
      case (Inl err)
      show ?thesis
      proof (cases "i = retries - 1")
        case last: True
        with "1.prems" True f Inl show ?thesis
          by (subst (asm) fetchWithRetry_from.simps) auto
      next
        case more: False
        obtain c2 ios2 w2 where
          rec: "fetchWithRetry_from fetch meth u retries (i + 1) w1 = (c2, ios2, w2)"
          by (cases "fetchWithRetry_from fetch meth u retries (i + 1) w1") auto
        from "1.prems" True f Inl more rec
        have eq: "c = c2 \<and>
          ios = [Fetch meth u, ConsoleLogRetry (i + 1) retries (2 ^ i * 1000),
                  Sleep (2 ^ i * 1000)] @ ios2"
          by (subst (asm) fetchWithRetry_from.simps) (simp add: Let_def)
        from True more have lt: "i + 1 < retries" by linarith
        note raw = "1.IH" [OF True f [symmetric] Inl more refl rec]
        from raw lt have ih: "1 \<le> fetches ios2" "fetches ios2 \<le> retries - (i + 1)"
          "sleeps ios2 = map (\<lambda>k. 2 ^ k * 1000) [i + 1 ..< i + 1 + (fetches ios2 - 1)]"
          "\<forall>err. c2 = Thrown err \<longrightarrow> fetches ios2 = retries - (i + 1)"
          by blast+
        from raw lt have ih5: "c2 \<noteq> ReturnedUndefined"
          by simp
        from eq have fi: "fetches ios = Suc (fetches ios2)"
          and sl: "sleeps ios = 2 ^ i * 1000 # sleeps ios2"
          by simp_all
        from ih(1) obtain m where m: "fetches ios2 = Suc m"
          by (cases "fetches ios2") auto
        have "[i ..< i + Suc m] = i # [i + 1 ..< i + 1 + m]"
          by (simp add: upt_conv_Cons del: upt_Suc)
        with sl ih(3) fi m
        have s: "sleeps ios = map (\<lambda>k. 2 ^ k * 1000) [i ..< i + (fetches ios - 1)]"
          by (simp del: upt_Suc)
        from fi ih(2) lt have b: "fetches ios \<le> retries - i" by linarith
        from fi ih(4) lt eq have t: "\<forall>err. c = Thrown err \<longrightarrow> fetches ios = retries - i"
          by auto
        from eq ih5 True have u: "c = ReturnedUndefined \<longleftrightarrow> retries \<le> i"
          by simp
        from fi s b t u show ?thesis
          by simp
      qed
    qed
  qed
qed

lemma is_ok_attempt: "is_ok res \<longleftrightarrow> (\<exists>r. attempt res = Inr r)"
  by (cases res rule: is_ok.cases) auto

lemma not_ok_attempt: "attempt res = Inl err \<Longrightarrow> \<not> is_ok res"
  by (simp add: is_ok_attempt)

lemma fetchWithRetry_bounds:
  assumes "fetchWithRetry fetch method u 3 w = (c, ios, w')"
  shows "1 \<le> fetches ios \<and> fetches ios \<le> 3 \<and>
    sleeps ios = take (fetches ios - 1) [1000, 2000] \<and>
    (\<forall>err. c = Thrown err \<longrightarrow> fetches ios = 3 \<and> sleeps ios = [1000, 2000]) \<and>
    c \<noteq> ReturnedUndefined"
proof -
  from assms have "fetchWithRetry_from fetch method u 3 0 w = (c, ios, w')"
    by (simp add: fetchWithRetry_def)
  from fetchWithRetry_from_trace [OF this]
  have t: "1 \<le> fetches ios" "fetches ios \<le> 3"
    "sleeps ios = map (\<lambda>k. 2 ^ k * 1000) [0 ..< fetches ios - 1]"
    "\<forall>err. c = Thrown err \<longrightarrow> fetches ios = 3" "c \<noteq> ReturnedUndefined"
    by simp_all
  from t(1,2) consider "fetches ios = 1" | "fetches ios = 2" | "fetches ios = 3"
    by linarith
  then have "sleeps ios = take (fetches ios - 1) [1000, 2000]"
  proof cases
    case 1 with t(3) show ?thesis by simp
  next
    case 2 with t(3) show ?thesis by simp
  next
    case 3
    have "[0 ..< 2] = [0, Suc 0]" by (simp add: upt_rec)
    with 3 t(3) show ?thesis by simp
  qed
  with t show ?thesis by auto
qed

lemma third_attempt_delivers:
  assumes "outcomes w = [f1, f2, f3]"
    and "attempt f1 = Inl e1" and "attempt f2 = Inl e2" and "attempt f3 = Inr r"
  shows "fetchWithRetry store_fetch ''PATCH'' (StateUrl ref state) 3 w =
    (Returned r,
     [Fetch ''PATCH'' (StateUrl ref state), ConsoleLogRetry 1 3 1000, Sleep 1000,
      Fetch ''PATCH'' (StateUrl ref state), ConsoleLogRetry 2 3 2000, Sleep 2000,
      Fetch ''PATCH'' (StateUrl ref state)],
     w\<lparr> store := (store w)(ref \<mapsto> state), outcomes := [] \<rparr>)"
proof -
  have ok: "\<not> is_ok f1" "\<not> is_ok f2" "is_ok f3"
    using assms by (simp_all add: is_ok_attempt)
  show ?thesis
    unfolding fetchWithRetry_def
    by (simp add: fetchWithRetry_from.simps [of _ _ _ 3] assms ok Let_def)
qed

lemma three_failures_throw:
  assumes "outcomes w = [f1, f2, f3]"
    and "attempt f1 = Inl e1" and "attempt f2 = Inl e2" and "attempt f3 = Inl e3"
  shows "fetchWithRetry store_fetch ''PATCH'' (StateUrl ref state) 3 w =
    (Thrown e3,
     [Fetch ''PATCH'' (StateUrl ref state), ConsoleLogRetry 1 3 1000, Sleep 1000,
      Fetch ''PATCH'' (StateUrl ref state), ConsoleLogRetry 2 3 2000, Sleep 2000,
      Fetch ''PATCH'' (StateUrl ref state)],
     w\<lparr> outcomes := [] \<rparr>)"
proof -
  have ok: "\<not> is_ok f1" "\<not> is_ok f2" "\<not> is_ok f3"
    using assms by (simp_all add: is_ok_attempt)
  show ?thesis
    unfolding fetchWithRetry_def
    by (simp add: fetchWithRetry_from.simps [of _ _ _ 3] assms ok Let_def)
qed

text \<open>C6, as stated, fails: with three tries there are two pauses.  When every try
  fails, the delays slept are one second and two seconds; the third failure is thrown at
  once, and the four seconds of the formula are never slept.\<close>

theorem bridge_delays_counterexample:
  "fetches (fst (snd (fetchWithRetry store_fetch ''PATCH'' (StateUrl ''0xab'' ''accepted'') 3
      \<lparr> store = Map.empty,
        outcomes = [Rejected ''down'', Resolved (Response False 503), Rejected ''down''] \<rparr>))) = 3 \<and>
   sleeps (fst (snd (fetchWithRetry store_fetch ''PATCH'' (StateUrl ''0xab'' ''accepted'') 3
      \<lparr> store = Map.empty,
        outcomes = [Rejected ''down'', Resolved (Response False 503), Rejected ''down''] \<rparr>)))
     \<noteq> [1000, 2000, 4000]"
  by (simp add: fetchWithRetry_def fetchWithRetry_from.simps [of _ _ _ 3])

text \<open>C6, amended: \<open>fetchWithRetry\<close>, with its default of three tries, sends at least
  one and at most three requests, and the delays it sleeps between them are the first
  one or two of one second and two seconds, doubling.  If delivery fails twice and
  succeeds on the third try, the third response is returned; the store, which applies a
  \<open>PATCH\<close> it answers with an ok response, then holds the delivered state for the
  transaction hash; and the confirm handler answers with the success of the ledger
  operation, with nothing written to the error console.\<close>

theorem bridge_three_attempts:
  "(fetchWithRetry fetch method u 3 w = (c, ios, w') \<longrightarrow>
      1 \<le> fetches ios \<and> fetches ios \<le> 3 \<and>
      sleeps ios = take (fetches ios - 1) [1000, 2000]) \<and>
   (outcomes wd = [f1, f2, f3] \<and>
    attempt f1 = Inl e1 \<and> attempt f2 = Inl e2 \<and> attempt f3 = Inr r \<longrightarrow>
      fetchWithRetry store_fetch ''PATCH'' (StateUrl tx_hash state) 3 wd =
        (Returned r,
         [Fetch ''PATCH'' (StateUrl tx_hash state), ConsoleLogRetry 1 3 1000, Sleep 1000,
          Fetch ''PATCH'' (StateUrl tx_hash state), ConsoleLogRetry 2 3 2000, Sleep 2000,
          Fetch ''PATCH'' (StateUrl tx_hash state)],
         wd\<lparr> store := (store wd)(tx_hash \<mapsto> state), outcomes := [] \<rparr>)) \<and>
   (outcomes wd = [f1, f2, f3] \<and>
    attempt f1 = Inl e1 \<and> attempt f2 = Inl e2 \<and> attempt f3 = Inr r \<and>
    confirmRequest st msg_sender ext_call i = Inr (st', effs) \<longrightarrow>
      api_confirm store_fetch ext_call tx_hash st msg_sender i wd =
        (st', effs,
         [Fetch ''PATCH'' (StateUrl tx_hash ''accepted''), ConsoleLogRetry 1 3 1000, Sleep 1000,
          Fetch ''PATCH'' (StateUrl tx_hash ''accepted''), ConsoleLogRetry 2 3 2000, Sleep 2000,
          Fetch ''PATCH'' (StateUrl tx_hash ''accepted'')],
         wd\<lparr> store := (store wd)(tx_hash \<mapsto> ''accepted''), outcomes := [] \<rparr>,
         Success tx_hash ''Request confirmed''))"
proof (intro conjI impI)
  assume "fetchWithRetry fetch method u 3 w = (c, ios, w')"
  note b = fetchWithRetry_bounds [OF this]
  from b show "1 \<le> fetches ios" by blast
  from b show "fetches ios \<le> 3" by blast
  from b show "sleeps ios = take (fetches ios - 1) [1000, 2000]" by blast
next
  assume a: "outcomes wd = [f1, f2, f3] \<and>
    attempt f1 = Inl e1 \<and> attempt f2 = Inl e2 \<and> attempt f3 = Inr r"
  then show "fetchWithRetry store_fetch ''PATCH'' (StateUrl tx_hash state) 3 wd =
        (Returned r,
         [Fetch ''PATCH'' (StateUrl tx_hash state), ConsoleLogRetry 1 3 1000, Sleep 1000,
          Fetch ''PATCH'' (StateUrl tx_hash state), ConsoleLogRetry 2 3 2000, Sleep 2000,
          Fetch ''PATCH'' (StateUrl tx_hash state)],
         wd\<lparr> store := (store wd)(tx_hash \<mapsto> state), outcomes := [] \<rparr>)"
    using third_attempt_delivers [of wd f1 f2 f3 e1 e2 r tx_hash state] by blast
next
  assume a: "outcomes wd = [f1, f2, f3] \<and>
    attempt f1 = Inl e1 \<and> attempt f2 = Inl e2 \<and> attempt f3 = Inr r \<and>
    confirmRequest st msg_sender ext_call i = Inr (st', effs)"
  then have "fetchWithRetry store_fetch ''PATCH'' (StateUrl tx_hash ''accepted'') 3 wd =
        (Returned r,
         [Fetch ''PATCH'' (StateUrl tx_hash ''accepted''), ConsoleLogRetry 1 3 1000, Sleep 1000,
          Fetch ''PATCH'' (StateUrl tx_hash ''accepted''), ConsoleLogRetry 2 3 2000, Sleep 2000,
          Fetch ''PATCH'' (StateUrl tx_hash ''accepted'')],
         wd\<lparr> store := (store wd)(tx_hash \<mapsto> ''accepted''), outcomes := [] \<rparr>)"
    using third_attempt_delivers [of wd f1 f2 f3 e1 e2 r tx_hash "''accepted''"] by blast
  with a show "api_confirm store_fetch ext_call tx_hash st msg_sender i wd =
        (st', effs,
         [Fetch ''PATCH'' (StateUrl tx_hash ''accepted''), ConsoleLogRetry 1 3 1000, Sleep 1000,
          Fetch ''PATCH'' (StateUrl tx_hash ''accepted''), ConsoleLogRetry 2 3 2000, Sleep 2000,
          Fetch ''PATCH'' (StateUrl tx_hash ''accepted'')],
         wd\<lparr> store := (store wd)(tx_hash \<mapsto> ''accepted''), outcomes := [] \<rparr>,
         Success tx_hash ''Request confirmed'')"
    by (simp add: api_confirm_def notify_def)
qed

theorem bridge_three_attempts_witness:
  "api_confirm store_fetch accepting ''0xab''
     (fst (run (constructor 1) [(accepting, CallCreate 0 0 2 0 0 0)])) 1 0
     \<lparr> store = Map.empty,
       outcomes = [Rejected ''down'', Resolved (Response False 503),
                   Resolved (Response True 200)] \<rparr>
   = (\<lparr> deployerOperator = 1, nextRequestId = 1,
        requests = (\<lambda>_. zero_request)(0 := \<lparr> req_id = 0, buyerOperator = 2, numUsers = 0,
            durationMins = 0, orderDetails = 0, status = Confirmed, createdAt = 0,
            amountPaid = 0 \<rparr>) \<rparr>,
      [Transfer 1 0, Emit (RequestConfirmed 0)],
      [Fetch ''PATCH'' (StateUrl ''0xab'' ''accepted''), ConsoleLogRetry 1 3 1000, Sleep 1000,
       Fetch ''PATCH'' (StateUrl ''0xab'' ''accepted''), ConsoleLogRetry 2 3 2000, Sleep 2000,
       Fetch ''PATCH'' (StateUrl ''0xab'' ''accepted'')],
      \<lparr> store = [''0xab'' \<mapsto> ''accepted''], outcomes = [] \<rparr>,
      Success ''0xab'' ''Request confirmed'')"
proof -
  define st where "st = fst (run (constructor 1) [(accepting, CallCreate 0 0 2 0 0 0)])"
  define st' where "st' = \<lparr> deployerOperator = 1, nextRequestId = 1,
        requests = (\<lambda>_. zero_request)(0 := \<lparr> req_id = 0, buyerOperator = 2, numUsers = 0,
            durationMins = 0, orderDetails = 0, status = Confirmed, createdAt = 0,
            amountPaid = 0 \<rparr>) \<rparr>"
  define wd where "wd = \<lparr> store = Map.empty,
       outcomes = [Rejected ''down'', Resolved (Response False 503),
                   Resolved (Response True 200)] \<rparr>"
  have c: "confirmRequest st 1 accepting 0 = Inr (st', [Transfer 1 0, Emit (RequestConfirmed 0)])"
    unfolding st_def st'_def run_one_create
    by (simp add: accepting_def)
  have o: "outcomes wd = [Rejected ''down'', Resolved (Response False 503),
                   Resolved (Response True 200)]"
    by (simp add: wd_def)
  have a: "attempt (Rejected ''down'') = Inl (NetworkError ''down'')"
    "attempt (Resolved (Response False 503)) = Inl (HttpError 503)"
    "attempt (Resolved (Response True 200)) = Inr (Response True 200)"
    by simp_all
  from bridge_three_attempts [where wd = wd and ?f1.0 = "Rejected ''down''"
      and ?f2.0 = "Resolved (Response False 503)" and ?f3.0 = "Resolved (Response True 200)"
      and ?e1.0 = "NetworkError ''down''" and ?e2.0 = "HttpError 503"
      and r = "Response True 200" and st = st and msg_sender = 1 and ext_call = accepting
      and i = 0 and st' = st' and effs = "[Transfer 1 0, Emit (RequestConfirmed 0)]"
      and tx_hash = "''0xab''", THEN conjunct2, THEN conjunct2] c o a
  have "api_confirm store_fetch accepting ''0xab'' st 1 0 wd =
        (st', [Transfer 1 0, Emit (RequestConfirmed 0)],
         [Fetch ''PATCH'' (StateUrl ''0xab'' ''accepted''), ConsoleLogRetry 1 3 1000, Sleep 1000,
          Fetch ''PATCH'' (StateUrl ''0xab'' ''accepted''), ConsoleLogRetry 2 3 2000, Sleep 2000,
          Fetch ''PATCH'' (StateUrl ''0xab'' ''accepted'')],
         wd\<lparr> store := (store wd)(''0xab'' \<mapsto> ''accepted''), outcomes := [] \<rparr>,
         Success ''0xab'' ''Request confirmed'')"
    by simp
  then show ?thesis
    unfolding st_def st'_def wd_def by simp
qed

text \<open>C7: when the bridge has used up its tries, that is when \<open>fetchWithRetry\<close> throws
  after three failed requests, the error reaches its caller, the confirm handler, which
  writes it to the error console and still answers with the success of the ledger
  operation and its transaction hash.  The storage of the ledger after the handler is
  always what \<open>confirmRequest\<close> left, whatever the bridge did, and the handler answers
  with a failure only when the ledger call itself reverted.\<close>

theorem bridge_failure_keeps_ledger:
  "(confirmRequest st msg_sender ext_call i = Inr (st', effs) \<and>
    fetchWithRetry fetch ''PATCH'' (StateUrl tx_hash ''accepted'') 3 w = (Thrown err, ios, w')
    \<longrightarrow>
      fetches ios = 3 \<and>
      api_confirm fetch ext_call tx_hash st msg_sender i w =
        (st', effs, ios @ [ConsoleErrorSync err], w', Success tx_hash ''Request confirmed'')) \<and>
   (outcomes wd = [f1, f2, f3] \<and>
    attempt f1 = Inl e1 \<and> attempt f2 = Inl e2 \<and> attempt f3 = Inl e3 \<longrightarrow>
      fetchWithRetry store_fetch ''PATCH'' (StateUrl tx_hash ''accepted'') 3 wd =
        (Thrown e3,
         [Fetch ''PATCH'' (StateUrl tx_hash ''accepted''), ConsoleLogRetry 1 3 1000, Sleep 1000,
          Fetch ''PATCH'' (StateUrl tx_hash ''accepted''), ConsoleLogRetry 2 3 2000, Sleep 2000,
          Fetch ''PATCH'' (StateUrl tx_hash ''accepted'')],
         wd\<lparr> outcomes := [] \<rparr>)) \<and>
   fst (api_confirm fetch ext_call tx_hash st msg_sender i w)
     = fst (exec ext_call st (CallConfirm msg_sender i)) \<and>
   (\<forall>e. snd (snd (snd (snd (api_confirm fetch ext_call tx_hash st msg_sender i w)))) = Failure e
      \<longleftrightarrow> confirmRequest st msg_sender ext_call i = Inl e)"
proof (intro conjI impI allI)
  assume a: "confirmRequest st msg_sender ext_call i = Inr (st', effs) \<and>
    fetchWithRetry fetch ''PATCH'' (StateUrl tx_hash ''accepted'') 3 w = (Thrown err, ios, w')"
  then have f: "fetchWithRetry fetch ''PATCH'' (StateUrl tx_hash ''accepted'') 3 w
      = (Thrown err, ios, w')" by simp
  from fetchWithRetry_bounds [OF f] show "fetches ios = 3" by simp
  from a show "api_confirm fetch ext_call tx_hash st msg_sender i w =
        (st', effs, ios @ [ConsoleErrorSync err], w', Success tx_hash ''Request confirmed'')"
    by (simp add: api_confirm_def notify_def)
next
  assume "outcomes wd = [f1, f2, f3] \<and>
    attempt f1 = Inl e1 \<and> attempt f2 = Inl e2 \<and> attempt f3 = Inl e3"
  then show "fetchWithRetry store_fetch ''PATCH'' (StateUrl tx_hash ''accepted'') 3 wd =
        (Thrown e3,
         [Fetch ''PATCH'' (StateUrl tx_hash ''accepted''), ConsoleLogRetry 1 3 1000, Sleep 1000,
          Fetch ''PATCH'' (StateUrl tx_hash ''accepted''), ConsoleLogRetry 2 3 2000, Sleep 2000,
          Fetch ''PATCH'' (StateUrl tx_hash ''accepted'')],
         wd\<lparr> outcomes := [] \<rparr>)"
    using three_failures_throw [of wd f1 f2 f3 e1 e2 e3 tx_hash "''accepted''"] by blast
next
  show "fst (api_confirm fetch ext_call tx_hash st msg_sender i w)
     = fst (exec ext_call st (CallConfirm msg_sender i))"
    by (cases "confirmRequest st msg_sender ext_call i")
       (auto simp: api_confirm_def split: prod.splits)
next
  fix e
  show "snd (snd (snd (snd (api_confirm fetch ext_call tx_hash st msg_sender i w)))) = Failure e
      \<longleftrightarrow> confirmRequest st msg_sender ext_call i = Inl e"
    by (cases "confirmRequest st msg_sender ext_call i")
       (auto simp: api_confirm_def split: prod.splits)
qed

theorem bridge_failure_keeps_ledger_witness:
  "api_confirm store_fetch accepting ''0xab''
     (fst (run (constructor 1) [(accepting, CallCreate 0 0 2 0 0 0)])) 1 0
     \<lparr> store = Map.empty,
       outcomes = [Rejected ''down'', Resolved (Response False 503), Rejected ''reset''] \<rparr>
   = (\<lparr> deployerOperator = 1, nextRequestId = 1,
        requests = (\<lambda>_. zero_request)(0 := \<lparr> req_id = 0, buyerOperator = 2, numUsers = 0,
            durationMins = 0, orderDetails = 0, status = Confirmed, createdAt = 0,
            amountPaid = 0 \<rparr>) \<rparr>,
      [Transfer 1 0, Emit (RequestConfirmed 0)],
      [Fetch ''PATCH'' (StateUrl ''0xab'' ''accepted''), ConsoleLogRetry 1 3 1000, Sleep 1000,
       Fetch ''PATCH'' (StateUrl ''0xab'' ''accepted''), ConsoleLogRetry 2 3 2000, Sleep 2000,
       Fetch ''PATCH'' (StateUrl ''0xab'' ''accepted''),
       ConsoleErrorSync (NetworkError ''reset'')],
      \<lparr> store = Map.empty, outcomes = [] \<rparr>,
      Success ''0xab'' ''Request confirmed'')"
proof -
  define st where "st = fst (run (constructor 1) [(accepting, CallCreate 0 0 2 0 0 0)])"
  define st' where "st' = \<lparr> deployerOperator = 1, nextRequestId = 1,
        requests = (\<lambda>_. zero_request)(0 := \<lparr> req_id = 0, buyerOperator = 2, numUsers = 0,
            durationMins = 0, orderDetails = 0, status = Confirmed, createdAt = 0,
            amountPaid = 0 \<rparr>) \<rparr>"
  define wd where "wd = \<lparr> store = Map.empty,
       outcomes = [Rejected ''down'', Resolved (Response False 503), Rejected ''reset''] \<rparr>"
  define ios where "ios =
      [Fetch ''PATCH'' (StateUrl ''0xab'' ''accepted''), ConsoleLogRetry 1 3 1000, Sleep 1000,
       Fetch ''PATCH'' (StateUrl ''0xab'' ''accepted''), ConsoleLogRetry 2 3 2000, Sleep 2000,
       Fetch ''PATCH'' (StateUrl ''0xab'' ''accepted'')]"
  have c: "confirmRequest st 1 accepting 0 = Inr (st', [Transfer 1 0, Emit (RequestConfirmed 0)])"
    unfolding st_def st'_def run_one_create
    by (simp add: accepting_def)
  have o: "outcomes wd = [Rejected ''down'', Resolved (Response False 503), Rejected ''reset'']"
    by (simp add: wd_def)
  have a: "attempt (Rejected ''down'') = Inl (NetworkError ''down'')"
    "attempt (Resolved (Response False 503)) = Inl (HttpError 503)"
    "attempt (Rejected ''reset'') = Inl (NetworkError ''reset'')"
    by simp_all
  from bridge_failure_keeps_ledger [where wd = wd and ?f1.0 = "Rejected ''down''"
      and ?f2.0 = "Resolved (Response False 503)" and ?f3.0 = "Rejected ''reset''"
      and ?e1.0 = "NetworkError ''down''" and ?e2.0 = "HttpError 503"
      and ?e3.0 = "NetworkError ''reset''" and tx_hash = "''0xab''",
      THEN conjunct2, THEN conjunct1] o a
  have f: "fetchWithRetry store_fetch ''PATCH'' (StateUrl ''0xab'' ''accepted'') 3 wd
      = (Thrown (NetworkError ''reset''), ios, wd\<lparr> outcomes := [] \<rparr>)"
    unfolding ios_def by simp
  from bridge_failure_keeps_ledger [where st = st and msg_sender = 1 and ext_call = accepting
      and i = 0 and st' = st' and effs = "[Transfer 1 0, Emit (RequestConfirmed 0)]"
      and fetch = store_fetch and tx_hash = "''0xab''" and w = wd
      and err = "NetworkError ''reset''" and ios = ios and w' = "wd\<lparr> outcomes := [] \<rparr>",
      THEN conjunct1] c f
  have "api_confirm store_fetch accepting ''0xab'' st 1 0 wd =
        (st', [Transfer 1 0, Emit (RequestConfirmed 0)],
         ios @ [ConsoleErrorSync (NetworkError ''reset'')], wd\<lparr> outcomes := [] \<rparr>,
         Success ''0xab'' ''Request confirmed'')"
    by simp
  then show ?thesis
    unfolding st_def st'_def wd_def ios_def by simp
qed

end
